theory Spec2Isabelle
  imports Main
begin

section \<open>Entities (src/entity/models.py)\<close>

text \<open>
  A \<open>DateTime\<close> column holds a point in time; only its order and the addition of a
  duration are used, so it is an integer count of microseconds. A \<open>Date\<close> column is a
  calendar date with its three components.
\<close>

type_synonym datetime = int

record date =
  year :: nat
  month :: nat
  day :: nat

datatype Role = Role_admin | Role_moderator | Role_user

text \<open>
  Every column is a field. A column declared \<open>nullable=True\<close> is an option; the
  primary key is the natural number the store assigned.
\<close>

record User =
  User_id :: nat
  User_username :: string
  User_email :: string
  User_password :: string
  User_avatar :: "string option"
  User_refresh_token :: "string option"
  User_created_at :: datetime
  User_updated_at :: datetime
  User_role :: "Role option"
  User_confirmed :: "bool option"

record Contact =
  Contact_id :: nat
  Contact_first_name :: string
  Contact_last_name :: string
  Contact_email :: string
  Contact_phone_number :: string
  Contact_birthday :: date
  Contact_created_at :: "datetime option"
  Contact_updated_at :: "datetime option"
  Contact_user_id :: "nat option"

record PasswordResetToken =
  PasswordResetToken_id :: nat
  PasswordResetToken_email :: string
  PasswordResetToken_token :: string
  PasswordResetToken_expiration :: datetime

section \<open>Request bodies\<close>

text \<open>
  The module src/schemas/user.py is not among the sources. Its request bodies are
  records with the fields the routes read and the tests construct:
  \<open>UserSchema(username, email, password)\<close>, \<open>RequestEmail(email)\<close>,
  \<open>PasswordResetRequest(email)\<close> and \<open>PasswordReset(token, new_password)\<close>.
  \<open>OAuth2PasswordRequestForm\<close> is the framework's login form.
\<close>

record UserSchema =
  UserSchema_username :: string
  UserSchema_email :: string
  UserSchema_password :: string

record OAuth2PasswordRequestForm =
  form_username :: string
  form_password :: string

record RequestEmail =
  RequestEmail_email :: string

record PasswordResetRequest =
  PasswordResetRequest_email :: string

record PasswordReset =
  PasswordReset_token :: string
  PasswordReset_new_password :: string

text \<open>The token pair that login and refresh return (a dict with these three keys).\<close>

record TokenSchema =
  access_token :: string
  refresh_token_value :: string
  token_type :: string

section \<open>Failures\<close>

text \<open>
  Modelled from the spec: the module src/conf/messages.py is not among the sources.
  The routes name its constants; the spec says the reasons carry distinct user-facing
  messages, so each constant is a constructor of its own. \<open>USER_CREATION_FAILED\<close>
  stands for the literal message of the 500 raised by signup, \<open>Detail\<close> for every
  other literal.
\<close>

datatype detail =
    ACCOUNT_EXIST
  | INVALID_EMAIL
  | EMAIL_NOT_CONFIRMED
  | INVALID_PASSWORD
  | INVALID_REFRESH_TOKEN
  | VERIFICATION_ERROR
  | EMAIL_NOT_FOUND
  | INVALID_OR_EXPIRED_TOKEN
  | USER_NOT_FOUND
  | USER_CREATION_FAILED
  | Detail string

text \<open>
  Every way a call can raise: an \<open>HTTPException\<close> with its status code and detail,
  Python's \<open>AttributeError\<close> (an attribute read on \<open>None\<close>) and \<open>OverflowError\<close>
  (a date beyond year 9999), and the store's \<open>MultipleResultsFound\<close>
  (\<open>scalar_one_or_none\<close> on more than one row) and \<open>IntegrityError\<close> (a unique
  constraint violated).
\<close>

datatype error =
    HTTPException nat detail
  | AttributeError
  | OverflowError
  | MultipleResultsFound
  | IntegrityError

section \<open>The store\<close>

text \<open>
  The three tables, each a list of rows in storage order, and the reading of the
  store's clock (\<open>func.now()\<close>) for the running request.
\<close>

record Db =
  users :: "User list"
  contacts :: "Contact list"
  password_reset_tokens :: "PasswordResetToken list"
  func_now :: datetime

text \<open>\<open>Result.scalar_one_or_none()\<close> and \<open>Result.scalar()\<close> of the query library.\<close>

definition scalar_one_or_none :: "'a list \<Rightarrow> error + 'a option" where
  "scalar_one_or_none rows =
     (case rows of
        [] \<Rightarrow> Inr None
      | [r] \<Rightarrow> Inr (Some r)
      | _ \<Rightarrow> Inl MultipleResultsFound)"

definition scalar :: "'a list \<Rightarrow> 'a option" where
  "scalar rows = (case rows of [] \<Rightarrow> None | r # _ \<Rightarrow> Some r)"

text \<open>The primary key the store gives a new row: one that no row of the table has.\<close>

definition fresh_id :: "nat list \<Rightarrow> nat" where
  "fresh_id ids = Suc (fold max ids 0)"

text \<open>
  Committing a changed \<open>User\<close> object: the session writes the assigned columns to the
  rows with the object's primary key, and only when a value really changes; the
  \<open>onupdate=func.now()\<close> of \<open>updated_at\<close> fires with that write.
\<close>

definition commit_User :: "nat \<Rightarrow> (User \<Rightarrow> User) \<Rightarrow> Db \<Rightarrow> Db" where
  "commit_User pk set_columns db =
     db\<lparr>users :=
          map (\<lambda>r. if User_id r = pk \<and> set_columns r \<noteq> r
                    then (set_columns r)\<lparr>User_updated_at := func_now db\<rparr>
                    else r)
              (users db)\<rparr>"

section \<open>External collaborators\<close>

text \<open>
  The module src/services/auth.py is not among the sources; \<open>auth_service\<close> is a
  parameter of every route that calls it. A field is the result the service gives
  during one request: the hasher is salted and the signed tokens carry their time of
  issue, so two requests may be served by different values of this record.
  Decoding a token raises inside the service when the token is rejected.
\<close>

record auth_service =
  get_password_hash :: "string \<Rightarrow> string"
  verify_password :: "string \<Rightarrow> string \<Rightarrow> bool"
  create_access_token :: "string \<Rightarrow> string"
  create_refresh_token :: "string \<Rightarrow> string"
  decode_refresh_token :: "string \<Rightarrow> error + string"
  get_email_from_token :: "string \<Rightarrow> error + string"
  generate_reset_token :: string

text \<open>The work handed to \<open>BackgroundTasks.add_task\<close>.\<close>

datatype task =
    send_email string string string
  | send_password_reset_email string string

section \<open>User repository (src/repository/users.py)\<close>

definition get_user_by_email :: "string \<Rightarrow> Db \<Rightarrow> error + User option" where
  "get_user_by_email email db =
     scalar_one_or_none (filter (\<lambda>u. User_email u = email) (users db))"

text \<open>
  \<open>Gravatar\<close> gives the avatar image address, or nothing when it raises. The new row
  takes the column defaults; the insert violates the unique constraint on
  \<open>users.email\<close> when a row with the address exists.
\<close>

definition create_user ::
  "(string \<Rightarrow> string option) \<Rightarrow> UserSchema \<Rightarrow> Db \<Rightarrow> (error + User) \<times> Db" where
  "create_user Gravatar body db =
     (let avatar = Gravatar (UserSchema_email body);
          new_user = \<lparr>User_id = fresh_id (map User_id (users db)),
                      User_username = UserSchema_username body,
                      User_email = UserSchema_email body,
                      User_password = UserSchema_password body,
                      User_avatar = avatar,
                      User_refresh_token = None,
                      User_created_at = func_now db,
                      User_updated_at = func_now db,
                      User_role = Some Role_user,
                      User_confirmed = Some False\<rparr>
      in if UserSchema_email body \<in> set (map User_email (users db))
         then (Inl IntegrityError, db)
         else (Inr new_user, db\<lparr>users := users db @ [new_user]\<rparr>))"

definition update_token :: "User \<Rightarrow> string option \<Rightarrow> Db \<Rightarrow> Db" where
  "update_token user token db =
     commit_User (User_id user) (\<lambda>r. r\<lparr>User_refresh_token := token\<rparr>) db"

definition repositories_users_confirmed_email :: "string \<Rightarrow> Db \<Rightarrow> (error + unit) \<times> Db" where
  "repositories_users_confirmed_email email db =
     (case get_user_by_email email db of
        Inl e \<Rightarrow> (Inl e, db)
      | Inr None \<Rightarrow> (Inl AttributeError, db)
      | Inr (Some user) \<Rightarrow>
          (Inr (), commit_User (User_id user) (\<lambda>r. r\<lparr>User_confirmed := Some True\<rparr>) db))"

definition update_avatar_url :: "string \<Rightarrow> string option \<Rightarrow> Db \<Rightarrow> (error + User) \<times> Db" where
  "update_avatar_url email url db =
     (case get_user_by_email email db of
        Inl e \<Rightarrow> (Inl e, db)
      | Inr None \<Rightarrow> (Inl AttributeError, db)
      | Inr (Some user) \<Rightarrow>
          (let db' = commit_User (User_id user) (\<lambda>r. r\<lparr>User_avatar := url\<rparr>) db
           in case scalar (filter (\<lambda>r. User_id r = User_id user) (users db')) of
                None \<Rightarrow> (Inl AttributeError, db')
              | Some user' \<Rightarrow> (Inr user', db')))"

section \<open>Authentication routes (src/routes/auth.py)\<close>

definition signup ::
  "auth_service \<Rightarrow> (string \<Rightarrow> string option) \<Rightarrow> UserSchema \<Rightarrow> string \<Rightarrow> Db
     \<Rightarrow> (error + User) \<times> Db \<times> task list" where
  "signup svc Gravatar body base_url db =
     (case get_user_by_email (UserSchema_email body) db of
        Inl e \<Rightarrow> (Inl e, db, [])
      | Inr (Some exist_user) \<Rightarrow> (Inl (HTTPException 409 ACCOUNT_EXIST), db, [])
      | Inr None \<Rightarrow>
          (let body' = body\<lparr>UserSchema_password :=
                              get_password_hash svc (UserSchema_password body)\<rparr>
           in case create_user Gravatar body' db of
                (Inl e, db') \<Rightarrow> (Inl (HTTPException 500 USER_CREATION_FAILED), db', [])
              | (Inr new_user, db') \<Rightarrow>
                  (Inr new_user, db',
                   [send_email (User_email new_user) (User_username new_user) base_url])))"

definition login ::
  "auth_service \<Rightarrow> OAuth2PasswordRequestForm \<Rightarrow> Db \<Rightarrow> (error + TokenSchema) \<times> Db" where
  "login svc body db =
     (case get_user_by_email (form_username body) db of
        Inl e \<Rightarrow> (Inl e, db)
      | Inr None \<Rightarrow> (Inl (HTTPException 401 INVALID_EMAIL), db)
      | Inr (Some user) \<Rightarrow>
          if User_confirmed user \<noteq> Some True
          then (Inl (HTTPException 401 EMAIL_NOT_CONFIRMED), db)
          else if \<not> verify_password svc (form_password body) (User_password user)
          then (Inl (HTTPException 401 INVALID_PASSWORD), db)
          else
            (let access = create_access_token svc (User_email user);
                 refresh = create_refresh_token svc (User_email user)
             in (Inr \<lparr>access_token = access, refresh_token_value = refresh,
                      token_type = ''bearer''\<rparr>,
                 update_token user (Some refresh) db)))"

definition refresh_token ::
  "auth_service \<Rightarrow> string \<Rightarrow> Db \<Rightarrow> (error + TokenSchema) \<times> Db" where
  "refresh_token svc token db =
     (case decode_refresh_token svc token of
        Inl e \<Rightarrow> (Inl e, db)
      | Inr email \<Rightarrow>
          (case get_user_by_email email db of
             Inl e \<Rightarrow> (Inl e, db)
           | Inr None \<Rightarrow> (Inl AttributeError, db)
           | Inr (Some user) \<Rightarrow>
               if User_refresh_token user \<noteq> Some token
               then (Inl (HTTPException 401 INVALID_REFRESH_TOKEN), update_token user None db)
               else
                 (let access = create_access_token svc email;
                      refresh = create_refresh_token svc email
                  in (Inr \<lparr>access_token = access, refresh_token_value = refresh,
                           token_type = ''bearer''\<rparr>,
                      update_token user (Some refresh) db))))"

definition confirmed_email ::
  "auth_service \<Rightarrow> string \<Rightarrow> Db \<Rightarrow> (error + string) \<times> Db" where
  "confirmed_email svc token db =
     (case get_email_from_token svc token of
        Inl e \<Rightarrow> (Inl e, db)
      | Inr email \<Rightarrow>
          (case get_user_by_email email db of
             Inl e \<Rightarrow> (Inl e, db)
           | Inr None \<Rightarrow> (Inl (HTTPException 400 VERIFICATION_ERROR), db)
           | Inr (Some user) \<Rightarrow>
               if User_confirmed user = Some True
               then (Inr ''Your email is already confirmed'', db)
               else
                 (case repositories_users_confirmed_email email db of
                    (Inl e, db') \<Rightarrow> (Inl e, db')
                  | (Inr _, db') \<Rightarrow> (Inr ''Email confirmed'', db'))))"

text \<open>
  Reading \<open>user.confirmed\<close> where \<open>user\<close> is what \<open>get_user_by_email\<close> returned:
  an attribute read on \<open>None\<close> raises.
\<close>

definition getattr_confirmed :: "User option \<Rightarrow> error + bool option" where
  "getattr_confirmed user =
     (case user of None \<Rightarrow> Inl AttributeError | Some u \<Rightarrow> Inr (User_confirmed u))"

definition request_email ::
  "RequestEmail \<Rightarrow> string \<Rightarrow> Db \<Rightarrow> (error + string) \<times> Db \<times> task list" where
  "request_email body base_url db =
     (case get_user_by_email (RequestEmail_email body) db of
        Inl e \<Rightarrow> (Inl e, db, [])
      | Inr user \<Rightarrow>
          (case getattr_confirmed user of
             Inl e \<Rightarrow> (Inl e, db, [])
           | Inr c \<Rightarrow>
               if c = Some True then (Inr ''Your email is already confirmed'', db, [])
               else
                 (Inr ''Check your email for confirmation.'', db,
                  (case user of
                     Some u \<Rightarrow> [send_email (User_email u) (User_username u) base_url]
                   | None \<Rightarrow> []))))"

text \<open>
  \<open>utcnow\<close> is the reading of \<open>datetime.utcnow()\<close> in the request; one hour is
  3600000000 microseconds. The insert violates the unique constraint on
  \<open>password_reset_tokens.token\<close> when a row with the token exists.
\<close>

definition password_reset_request ::
  "auth_service \<Rightarrow> datetime \<Rightarrow> PasswordResetRequest \<Rightarrow> Db
     \<Rightarrow> (error + string) \<times> Db \<times> task list" where
  "password_reset_request svc utcnow request db =
     (case get_user_by_email (PasswordResetRequest_email request) db of
        Inl e \<Rightarrow> (Inl e, db, [])
      | Inr None \<Rightarrow> (Inl (HTTPException 404 EMAIL_NOT_FOUND), db, [])
      | Inr (Some user) \<Rightarrow>
          (let token = generate_reset_token svc;
               expiration = utcnow + 3600000000;
               db_token = \<lparr>PasswordResetToken_id =
                             fresh_id (map PasswordResetToken_id (password_reset_tokens db)),
                           PasswordResetToken_email = PasswordResetRequest_email request,
                           PasswordResetToken_token = token,
                           PasswordResetToken_expiration = expiration\<rparr>
           in if token \<in> set (map PasswordResetToken_token (password_reset_tokens db))
              then (Inl IntegrityError, db, [])
              else
                (Inr ''Password reset link has been sent to your email.'',
                 db\<lparr>password_reset_tokens := password_reset_tokens db @ [db_token]\<rparr>,
                 [send_password_reset_email (PasswordResetRequest_email request) token])))"

definition reset_password ::
  "auth_service \<Rightarrow> datetime \<Rightarrow> PasswordReset \<Rightarrow> Db \<Rightarrow> (error + string) \<times> Db" where
  "reset_password svc utcnow request db =
     (case scalar (filter (\<lambda>r. PasswordResetToken_token r = PasswordReset_token request)
                          (password_reset_tokens db)) of
        None \<Rightarrow> (Inl (HTTPException 400 INVALID_OR_EXPIRED_TOKEN), db)
      | Some db_token \<Rightarrow>
          if PasswordResetToken_expiration db_token < utcnow
          then (Inl (HTTPException 400 INVALID_OR_EXPIRED_TOKEN), db)
          else
            (case scalar (filter (\<lambda>u. User_email u = PasswordResetToken_email db_token)
                                 (users db)) of
               None \<Rightarrow> (Inl (HTTPException 404 USER_NOT_FOUND), db)
             | Some user \<Rightarrow>
                 (let db1 = commit_User (User_id user)
                              (\<lambda>r. r\<lparr>User_password :=
                                        get_password_hash svc (PasswordReset_new_password request)\<rparr>)
                              db;
                      db2 = db1\<lparr>password_reset_tokens :=
                                  filter (\<lambda>r. PasswordResetToken_id r \<noteq> PasswordResetToken_id db_token)
                                         (password_reset_tokens db1)\<rparr>
                  in (Inr ''Password has been reset successfully.'', db2))))"

text \<open>The store after a completed reset for the token row \<open>t\<close> and the user row \<open>u\<close>.\<close>

definition after_reset :: "auth_service \<Rightarrow> PasswordReset \<Rightarrow> PasswordResetToken \<Rightarrow> User \<Rightarrow> Db \<Rightarrow> Db" where
  "after_reset svc request t u db =
     (commit_User (User_id u)
        (\<lambda>r. r\<lparr>User_password := get_password_hash svc (PasswordReset_new_password request)\<rparr>) db)
     \<lparr>password_reset_tokens :=
        filter (\<lambda>r. PasswordResetToken_id r \<noteq> PasswordResetToken_id t) (password_reset_tokens db)\<rparr>"

section \<open>Calendar dates\<close>

text \<open>
  What \<open>date + timedelta(days=n)\<close> of the standard library computes, in the
  proleptic Gregorian calendar; a result beyond year 9999 raises \<open>OverflowError\<close>.
\<close>

definition is_leap :: "nat \<Rightarrow> bool" where
  "is_leap y \<longleftrightarrow> y mod 4 = 0 \<and> (y mod 100 \<noteq> 0 \<or> y mod 400 = 0)"

definition days_in_month :: "nat \<Rightarrow> nat \<Rightarrow> nat" where
  "days_in_month y m =
     (if m = 2 then (if is_leap y then 29 else 28)
      else if m = 4 \<or> m = 6 \<or> m = 9 \<or> m = 11 then 30
      else 31)"

definition next_day :: "date \<Rightarrow> date" where
  "next_day d =
     (if day d < days_in_month (year d) (month d) then d\<lparr>day := Suc (day d)\<rparr>
      else if month d < 12 then d\<lparr>month := Suc (month d), day := 1\<rparr>
      else \<lparr>year = Suc (year d), month = 1, day = 1\<rparr>)"

fun add_days :: "nat \<Rightarrow> date \<Rightarrow> date" where
  "add_days 0 d = d"
| "add_days (Suc n) d = add_days n (next_day d)"

definition date_plus_days :: "date \<Rightarrow> nat \<Rightarrow> error + date" where
  "date_plus_days d n =
     (let d' = add_days n d in if 9999 < year d' then Inl OverflowError else Inr d')"

text \<open>The first day of the month after the one of \<open>d\<close>.\<close>

definition next_month_start :: "date \<Rightarrow> date" where
  "next_month_start d =
     (if month d < 12 then d\<lparr>month := Suc (month d), day := 1\<rparr>
      else \<lparr>year = Suc (year d), month = 1, day = 1\<rparr>)"

text \<open>A date of the calendar: what a \<open>date\<close> object can hold.\<close>

definition valid_date :: "date \<Rightarrow> bool" where
  "valid_date d \<longleftrightarrow>
     1 \<le> year d \<and> year d \<le> 9999 \<and> 1 \<le> month d \<and> month d \<le> 12 \<and>
     1 \<le> day d \<and> day d \<le> days_in_month (year d) (month d)"

section \<open>Contact repository (src/repository/contacts.py)\<close>

text \<open>
  \<open>ContactSchema\<close> of src/schemas/contact.py; \<open>ContactUpdateSchema\<close> is its subclass
  with the same five fields.
\<close>

record ContactSchema =
  ContactSchema_first_name :: string
  ContactSchema_last_name :: string
  ContactSchema_email :: string
  ContactSchema_phone_number :: string
  ContactSchema_birthday :: date

type_synonym ContactUpdateSchema = ContactSchema

text \<open>
  \<open>filter_by(user=user)\<close> and \<open>Contact.user_id == user.id\<close> are the same condition on
  the foreign key. \<open>offset\<close> and \<open>limit\<close> are the non-negative numbers the route lets
  through. A query without an order returns the rows in storage order.
\<close>

definition get_contacts :: "nat \<Rightarrow> nat \<Rightarrow> Db \<Rightarrow> User \<Rightarrow> Contact list" where
  "get_contacts offset limit db user =
     take limit (drop offset
       (filter (\<lambda>c. Contact_user_id c = Some (User_id user)) (contacts db)))"

definition get_contact_id :: "nat \<Rightarrow> Db \<Rightarrow> User \<Rightarrow> error + Contact option" where
  "get_contact_id contact_id db user =
     scalar_one_or_none
       (filter (\<lambda>c. Contact_id c = contact_id \<and> Contact_user_id c = Some (User_id user))
               (contacts db))"

text \<open>
  The case folding of the store (\<open>func.lower\<close>) and of the language (\<open>str.lower\<close>)
  are parameters of the three searches.
\<close>

definition get_contact_first_name ::
  "(string \<Rightarrow> string) \<Rightarrow> (string \<Rightarrow> string) \<Rightarrow> string \<Rightarrow> Db \<Rightarrow> User \<Rightarrow> Contact list" where
  "get_contact_first_name func_lower str_lower contact_first_name db user =
     filter (\<lambda>c. func_lower (Contact_first_name c) = str_lower contact_first_name \<and>
                  Contact_user_id c = Some (User_id user))
            (contacts db)"

definition get_contact_last_name ::
  "(string \<Rightarrow> string) \<Rightarrow> (string \<Rightarrow> string) \<Rightarrow> string \<Rightarrow> Db \<Rightarrow> User \<Rightarrow> Contact list" where
  "get_contact_last_name func_lower str_lower contact_last_name db user =
     filter (\<lambda>c. func_lower (Contact_last_name c) = str_lower contact_last_name \<and>
                  Contact_user_id c = Some (User_id user))
            (contacts db)"

definition get_contact_email ::
  "(string \<Rightarrow> string) \<Rightarrow> (string \<Rightarrow> string) \<Rightarrow> string \<Rightarrow> Db \<Rightarrow> User \<Rightarrow> error + Contact" where
  "get_contact_email func_lower str_lower contact_email db user =
     (case scalar_one_or_none
             (filter (\<lambda>c. func_lower (Contact_email c) = str_lower contact_email \<and>
                          Contact_user_id c = Some (User_id user))
                     (contacts db)) of
        Inl e \<Rightarrow> Inl e
      | Inr None \<Rightarrow> Inl (HTTPException 404 (Detail ''Contact not found''))
      | Inr (Some contact) \<Rightarrow> Inr contact)"

text \<open>\<open>today\<close> is the reading of \<open>datetime.utcnow().date()\<close> in the request.\<close>

definition get_contact_birthday :: "date \<Rightarrow> Db \<Rightarrow> User \<Rightarrow> error + Contact list" where
  "get_contact_birthday today db user =
     (case date_plus_days today 7 of
        Inl e \<Rightarrow> Inl e
      | Inr seven_days_later \<Rightarrow>
          Inr (filter
                 (\<lambda>c. Contact_user_id c = Some (User_id user) \<and>
                      (month (Contact_birthday c) = month today \<and>
                         day today \<le> day (Contact_birthday c) \<or>
                       month (Contact_birthday c) = month seven_days_later \<and>
                         day (Contact_birthday c) \<le> day seven_days_later))
                 (contacts db)))"

text \<open>
  The insert violates a unique constraint when a row has the electronic address or
  the phone number already. The caller is a row of \<open>users\<close>, so the foreign key holds.
\<close>

definition create_contact :: "ContactSchema \<Rightarrow> Db \<Rightarrow> User \<Rightarrow> (error + Contact) \<times> Db" where
  "create_contact body db user =
     (let contact = \<lparr>Contact_id = fresh_id (map Contact_id (contacts db)),
                     Contact_first_name = ContactSchema_first_name body,
                     Contact_last_name = ContactSchema_last_name body,
                     Contact_email = ContactSchema_email body,
                     Contact_phone_number = ContactSchema_phone_number body,
                     Contact_birthday = ContactSchema_birthday body,
                     Contact_created_at = Some (func_now db),
                     Contact_updated_at = Some (func_now db),
                     Contact_user_id = Some (User_id user)\<rparr>
      in if ContactSchema_email body \<in> set (map Contact_email (contacts db)) \<or>
            ContactSchema_phone_number body \<in> set (map Contact_phone_number (contacts db))
         then (Inl IntegrityError, db)
         else (Inr contact, db\<lparr>contacts := contacts db @ [contact]\<rparr>))"

text \<open>
  The five assignments of \<open>update_contact\<close>, and the row the commit leaves: the
  write happens only when a value changes, and \<open>updated_at\<close> follows it.
\<close>

definition assign_body :: "ContactUpdateSchema \<Rightarrow> Contact \<Rightarrow> Contact" where
  "assign_body body contact =
     contact\<lparr>Contact_first_name := ContactSchema_first_name body,
             Contact_last_name := ContactSchema_last_name body,
             Contact_email := ContactSchema_email body,
             Contact_phone_number := ContactSchema_phone_number body,
             Contact_birthday := ContactSchema_birthday body\<rparr>"

definition committed_Contact :: "datetime \<Rightarrow> (Contact \<Rightarrow> Contact) \<Rightarrow> Contact \<Rightarrow> Contact" where
  "committed_Contact now set_columns r =
     (if set_columns r \<noteq> r then (set_columns r)\<lparr>Contact_updated_at := Some now\<rparr> else r)"

definition update_contact ::
  "nat \<Rightarrow> ContactUpdateSchema \<Rightarrow> Db \<Rightarrow> User \<Rightarrow> (error + Contact option) \<times> Db" where
  "update_contact contact_id body db user =
     (case scalar_one_or_none
             (filter (\<lambda>c. Contact_id c = contact_id \<and> Contact_user_id c = Some (User_id user))
                     (contacts db)) of
        Inl e \<Rightarrow> (Inl e, db)
      | Inr None \<Rightarrow> (Inr None, db)
      | Inr (Some contact) \<Rightarrow>
          if \<exists>r \<in> set (contacts db).
               Contact_id r \<noteq> Contact_id contact \<and>
               (Contact_email r = ContactSchema_email body \<or>
                Contact_phone_number r = ContactSchema_phone_number body)
          then (Inl IntegrityError, db)
          else
            (Inr (Some (committed_Contact (func_now db) (assign_body body) contact)),
             db\<lparr>contacts :=
                  map (\<lambda>r. if Contact_id r = Contact_id contact
                            then committed_Contact (func_now db) (assign_body body) r
                            else r)
                      (contacts db)\<rparr>))"

definition remove_contact :: "nat \<Rightarrow> Db \<Rightarrow> User \<Rightarrow> (error + Contact option) \<times> Db" where
  "remove_contact contact_id db user =
     (case scalar_one_or_none
             (filter (\<lambda>c. Contact_id c = contact_id \<and> Contact_user_id c = Some (User_id user))
                     (contacts db)) of
        Inl e \<Rightarrow> (Inl e, db)
      | Inr None \<Rightarrow> (Inr None, db)
      | Inr (Some contact) \<Rightarrow>
          (Inr (Some contact),
           db\<lparr>contacts := filter (\<lambda>r. Contact_id r \<noteq> Contact_id contact) (contacts db)\<rparr>))"

text \<open>
  The owner of a contact is the user its foreign key names; the contacts of the others
  are the rows of the table that a user does not own, in storage order.
\<close>

definition owned_by :: "User \<Rightarrow> Contact \<Rightarrow> bool" where
  "owned_by user c \<longleftrightarrow> Contact_user_id c = Some (User_id user)"

definition contacts_of_others :: "User \<Rightarrow> Db \<Rightarrow> Contact list" where
  "contacts_of_others user db = filter (\<lambda>c. \<not> owned_by user c) (contacts db)"

section \<open>The constraints the store keeps\<close>

text \<open>
  The primary keys and the columns declared \<open>unique=True\<close>: the store refuses a
  write that would break one of them, so every state a request meets satisfies them.
\<close>

definition store_constraints :: "Db \<Rightarrow> bool" where
  "store_constraints db \<longleftrightarrow>
     distinct (map User_id (users db)) \<and>
     distinct (map User_email (users db)) \<and>
     distinct (map Contact_id (contacts db)) \<and>
     distinct (map Contact_email (contacts db)) \<and>
     distinct (map Contact_phone_number (contacts db)) \<and>
     distinct (map PasswordResetToken_id (password_reset_tokens db)) \<and>
     distinct (map PasswordResetToken_token (password_reset_tokens db))"

section \<open>Sequences of requests\<close>

text \<open>
  A request to one of the modelled operations, with the arguments the operation takes.
  Serving a request at a reading of the store's clock gives the store it leaves;
  \<open>serve_all\<close> serves a list of requests one after the other.
\<close>

datatype request =
    Signup auth_service "string \<Rightarrow> string option" UserSchema string
  | Login auth_service OAuth2PasswordRequestForm
  | RefreshToken auth_service string
  | ConfirmedEmail auth_service string
  | RequestEmailAgain RequestEmail string
  | PasswordResetRequested auth_service datetime PasswordResetRequest
  | ResetPassword auth_service datetime PasswordReset
  | UpdateAvatarUrl string "string option"
  | CreateContact ContactSchema User
  | UpdateContact nat ContactUpdateSchema User
  | RemoveContact nat User

fun serve :: "datetime \<times> request \<Rightarrow> Db \<Rightarrow> Db" where
  "serve (now, Signup svc Gravatar body base_url) db =
     fst (snd (signup svc Gravatar body base_url (db\<lparr>func_now := now\<rparr>)))"
| "serve (now, Login svc body) db = snd (login svc body (db\<lparr>func_now := now\<rparr>))"
| "serve (now, RefreshToken svc token) db = snd (refresh_token svc token (db\<lparr>func_now := now\<rparr>))"
| "serve (now, ConfirmedEmail svc token) db =
     snd (confirmed_email svc token (db\<lparr>func_now := now\<rparr>))"
| "serve (now, RequestEmailAgain body base_url) db =
     fst (snd (request_email body base_url (db\<lparr>func_now := now\<rparr>)))"
| "serve (now, PasswordResetRequested svc utcnow body) db =
     fst (snd (password_reset_request svc utcnow body (db\<lparr>func_now := now\<rparr>)))"
| "serve (now, ResetPassword svc utcnow body) db =
     snd (reset_password svc utcnow body (db\<lparr>func_now := now\<rparr>))"
| "serve (now, UpdateAvatarUrl email url) db =
     snd (update_avatar_url email url (db\<lparr>func_now := now\<rparr>))"
| "serve (now, CreateContact body user) db =
     snd (create_contact body (db\<lparr>func_now := now\<rparr>) user)"
| "serve (now, UpdateContact contact_id body user) db =
     snd (update_contact contact_id body (db\<lparr>func_now := now\<rparr>) user)"
| "serve (now, RemoveContact contact_id user) db =
     snd (remove_contact contact_id (db\<lparr>func_now := now\<rparr>) user)"

definition serve_all :: "(datetime \<times> request) list \<Rightarrow> Db \<Rightarrow> Db" where
  "serve_all requests db = fold serve requests db"


text \<open>No user with the address has \<open>t\<close> as stored refresh token.\<close>

definition token_not_stored :: "string \<Rightarrow> string \<Rightarrow> Db \<Rightarrow> bool" where
  "token_not_stored email t db \<longleftrightarrow>
     (\<forall>u \<in> set (users db). User_email u = email \<longrightarrow> User_refresh_token u \<noteq> Some t)"

section \<open>Example values\<close>

text \<open>
  A service whose tokens are the subject behind a kind letter and a serial character,
  one user (confirmed, password \<open>pw\<close>), one reset token expiring at time 100.
\<close>

definition example_service :: "char \<Rightarrow> auth_service" where
  "example_service n =
     \<lparr>get_password_hash = (\<lambda>p. CHR ''h'' # n # p),
      verify_password = (\<lambda>p h. drop 2 h = p \<and> take 1 h = ''h''),
      create_access_token = (\<lambda>e. CHR ''a'' # n # e),
      create_refresh_token = (\<lambda>e. CHR ''r'' # n # e),
      decode_refresh_token =
        (\<lambda>t. case t of
                c # m # e \<Rightarrow> if c = CHR ''r'' then Inr e
                             else Inl (HTTPException 401 (Detail ''Could not validate credentials''))
              | _ \<Rightarrow> Inl (HTTPException 401 (Detail ''Could not validate credentials''))),
      get_email_from_token =
        (\<lambda>t. case t of
                c # m # e \<Rightarrow> if c = CHR ''e'' then Inr e
                             else Inl (HTTPException 422 (Detail ''Invalid token for email verification''))
              | _ \<Rightarrow> Inl (HTTPException 422 (Detail ''Invalid token for email verification''))),
      generate_reset_token = [CHR ''t'', n]\<rparr>"

definition example_user :: User where
  "example_user =
     \<lparr>User_id = 1, User_username = ''agent007'', User_email = ''a@x.com'',
      User_password = ''h1pw'', User_avatar = None, User_refresh_token = Some ''r1a@x.com'',
      User_created_at = 0, User_updated_at = 0, User_role = Some Role_user,
      User_confirmed = Some True\<rparr>"

definition example_token :: PasswordResetToken where
  "example_token =
     \<lparr>PasswordResetToken_id = 1, PasswordResetToken_email = ''a@x.com'',
      PasswordResetToken_token = ''t1'', PasswordResetToken_expiration = 100\<rparr>"

definition example_db :: Db where
  "example_db =
     \<lparr>users = [example_user], contacts = [], password_reset_tokens = [example_token],
      func_now = 5\<rparr>"

definition empty_db :: Db where
  "empty_db = \<lparr>users = [], contacts = [], password_reset_tokens = [], func_now = 0\<rparr>"


lemmas example_defs =
  example_service_def example_user_def example_token_def example_db_def empty_db_def

definition example_contact :: Contact where
  "example_contact =
     \<lparr>Contact_id = 1, Contact_first_name = ''Alice'', Contact_last_name = ''Smith'',
      Contact_email = ''test1@gmail.com'', Contact_phone_number = ''17777777777'',
      Contact_birthday = \<lparr>year = 1990, month = 1, day = 11\<rparr>,
      Contact_created_at = Some 0, Contact_updated_at = Some 0, Contact_user_id = Some 1\<rparr>"

definition foreign_contact :: Contact where
  "foreign_contact =
     \<lparr>Contact_id = 2, Contact_first_name = ''Bob'', Contact_last_name = ''Brown'',
      Contact_email = ''test2@gmail.com'', Contact_phone_number = ''27777777777'',
      Contact_birthday = \<lparr>year = 1985, month = 1, day = 4\<rparr>,
      Contact_created_at = Some 0, Contact_updated_at = Some 0, Contact_user_id = Some 2\<rparr>"

definition example_contacts_db :: Db where
  "example_contacts_db = example_db\<lparr>contacts := [example_contact, foreign_contact]\<rparr>"

definition example_body :: ContactSchema where
  "example_body =
     \<lparr>ContactSchema_first_name = ''first_name'', ContactSchema_last_name = ''last_name'',
      ContactSchema_email = ''test@gmail.com'', ContactSchema_phone_number = ''7777777777'',
      ContactSchema_birthday = \<lparr>year = 2000, month = 1, day = 1\<rparr>\<rparr>"

definition example_today :: date where
  "example_today = \<lparr>year = 2024, month = 1, day = 1\<rparr>"

lemmas example_contact_defs =
  example_contact_def foreign_contact_def example_contacts_db_def example_body_def
  example_defs

section \<open>Queries on a table with a unique column\<close>

lemma scalar_one_or_none_Nil: "scalar_one_or_none [] = Inr None"
  by (simp add: scalar_one_or_none_def)

lemma scalar_one_or_none_single: "scalar_one_or_none [r] = Inr (Some r)"
  by (simp add: scalar_one_or_none_def)

lemma filter_absent_key:
  "k \<notin> key ` set rows \<Longrightarrow> filter (\<lambda>x. key x = k) rows = []"
  by (induction rows) auto

lemma filter_unique_key:
  "distinct (map key rows) \<Longrightarrow> r \<in> set rows \<Longrightarrow> filter (\<lambda>x. key x = key r) rows = [r]"
proof (induction rows)
  case Nil
  then show ?case by simp
next
  case (Cons a rows)
  show ?case
  proof (cases "a = r")
    case True
    with Cons.prems have "key r \<notin> key ` set rows" by simp
    then have "filter (\<lambda>x. key x = key r) rows = []"
      by (rule filter_absent_key)
    with True show ?thesis by simp
  next
    case False
    with Cons.prems have r: "r \<in> set rows" and d: "distinct (map key rows)"
      and "key a \<notin> key ` set rows" by auto
    then have "key a \<noteq> key r" by auto
    with Cons.IH [OF d r] show ?thesis by simp
  qed
qed

lemma get_user_by_email_known:
  "distinct (map User_email (users db)) \<Longrightarrow> u \<in> set (users db)
     \<Longrightarrow> get_user_by_email (User_email u) db = Inr (Some u)"
  by (simp add: get_user_by_email_def filter_unique_key scalar_one_or_none_single)

lemma get_user_by_email_unknown:
  "email \<notin> User_email ` set (users db) \<Longrightarrow> get_user_by_email email db = Inr None"
  by (simp add: get_user_by_email_def filter_absent_key scalar_one_or_none_Nil)

lemma get_user_by_email_SomeD:
  "get_user_by_email email db = Inr (Some u) \<Longrightarrow>
     filter (\<lambda>r. User_email r = email) (users db) = [u]"
  by (auto simp: get_user_by_email_def scalar_one_or_none_def split: list.splits)

section \<open>Login\<close>

lemma login_unknown:
  "form_username body \<notin> User_email ` set (users db) \<Longrightarrow>
     login svc body db = (Inl (HTTPException 401 INVALID_EMAIL), db)"
  by (simp add: login_def get_user_by_email_unknown)

lemma login_known:
  assumes "distinct (map User_email (users db))" and "u \<in> set (users db)"
    and "User_email u = form_username body"
  shows "login svc body db =
     (if User_confirmed u \<noteq> Some True
      then (Inl (HTTPException 401 EMAIL_NOT_CONFIRMED), db)
      else if \<not> verify_password svc (form_password body) (User_password u)
      then (Inl (HTTPException 401 INVALID_PASSWORD), db)
      else (Inr \<lparr>access_token = create_access_token svc (User_email u),
                 refresh_token_value = create_refresh_token svc (User_email u),
                 token_type = ''bearer''\<rparr>,
            update_token u (Some (create_refresh_token svc (User_email u))) db))"
  using get_user_by_email_known [OF assms(1,2)] assms(3)
  by (simp add: login_def Let_def)

text \<open>
  Claim C3. On a store whose addresses are unique, login fails with status 401 exactly
  when the address is unknown, the account is not confirmed, or the password does not
  verify. The three reasons carry three different details under the same status; the
  not-confirmed reason is given whatever password is supplied; a failure leaves the
  store as it was. In the remaining case login returns the access and refresh tokens of
  the service as a bearer pair and stores the refresh token.
\<close>

theorem login_401_exactly:
  assumes "distinct (map User_email (users db))"
  shows
    "((\<exists>d. fst (login svc body db) = Inl (HTTPException 401 d)) \<longleftrightarrow>
        (form_username body \<notin> User_email ` set (users db) \<or>
         (\<exists>u \<in> set (users db). User_email u = form_username body \<and>
            (User_confirmed u \<noteq> Some True \<or>
             \<not> verify_password svc (form_password body) (User_password u))))) \<and>
     (form_username body \<notin> User_email ` set (users db) \<longrightarrow>
        login svc body db = (Inl (HTTPException 401 INVALID_EMAIL), db)) \<and>
     (\<forall>u \<in> set (users db). User_email u = form_username body \<longrightarrow>
        (User_confirmed u \<noteq> Some True \<longrightarrow>
           (\<forall>pw. login svc (body\<lparr>form_password := pw\<rparr>) db =
                   (Inl (HTTPException 401 EMAIL_NOT_CONFIRMED), db))) \<and>
        (User_confirmed u = Some True \<and>
         \<not> verify_password svc (form_password body) (User_password u) \<longrightarrow>
           login svc body db = (Inl (HTTPException 401 INVALID_PASSWORD), db)) \<and>
        (User_confirmed u = Some True \<and>
         verify_password svc (form_password body) (User_password u) \<longrightarrow>
           login svc body db =
             (Inr \<lparr>access_token = create_access_token svc (User_email u),
                   refresh_token_value = create_refresh_token svc (User_email u),
                   token_type = ''bearer''\<rparr>,
              update_token u (Some (create_refresh_token svc (User_email u))) db))) \<and>
     INVALID_EMAIL \<noteq> EMAIL_NOT_CONFIRMED \<and> EMAIL_NOT_CONFIRMED \<noteq> INVALID_PASSWORD \<and>
     INVALID_EMAIL \<noteq> INVALID_PASSWORD"
proof -
  have unknown: "login svc body db = (Inl (HTTPException 401 INVALID_EMAIL), db)"
    if "form_username body \<notin> User_email ` set (users db)"
    using that by (rule login_unknown)
  have known: "login svc b db =
     (if User_confirmed u \<noteq> Some True
      then (Inl (HTTPException 401 EMAIL_NOT_CONFIRMED), db)
      else if \<not> verify_password svc (form_password b) (User_password u)
      then (Inl (HTTPException 401 INVALID_PASSWORD), db)
      else (Inr \<lparr>access_token = create_access_token svc (User_email u),
                 refresh_token_value = create_refresh_token svc (User_email u),
                 token_type = ''bearer''\<rparr>,
            update_token u (Some (create_refresh_token svc (User_email u))) db))"
    if "u \<in> set (users db)" and "User_email u = form_username b" for u b
    using assms that by (rule login_known)
  have same: "u' = u"
    if "u \<in> set (users db)" "u' \<in> set (users db)" "User_email u' = User_email u" for u u'
    using assms that by (metis distinct_map inj_onD)
  have iff: "(\<exists>d. fst (login svc body db) = Inl (HTTPException 401 d)) \<longleftrightarrow>
        (form_username body \<notin> User_email ` set (users db) \<or>
         (\<exists>u \<in> set (users db). User_email u = form_username body \<and>
            (User_confirmed u \<noteq> Some True \<or>
             \<not> verify_password svc (form_password body) (User_password u))))"
  proof (cases "form_username body \<in> User_email ` set (users db)")
    case False
    then show ?thesis by (simp add: unknown)
  next
    case True
    then obtain u where u: "u \<in> set (users db)" "User_email u = form_username body"
      by auto
    have "(\<exists>u' \<in> set (users db). User_email u' = form_username body \<and>
            (User_confirmed u' \<noteq> Some True \<or>
             \<not> verify_password svc (form_password body) (User_password u'))) \<longleftrightarrow>
          (User_confirmed u \<noteq> Some True \<or>
             \<not> verify_password svc (form_password body) (User_password u))"
      using u same by metis
    moreover have "(\<exists>d. fst (login svc body db) = Inl (HTTPException 401 d)) \<longleftrightarrow>
          (User_confirmed u \<noteq> Some True \<or>
             \<not> verify_password svc (form_password body) (User_password u))"
      by (simp add: known [OF u])
    ultimately show ?thesis using True by simp
  qed
  have unconf: "login svc (body\<lparr>form_password := pw\<rparr>) db =
                   (Inl (HTTPException 401 EMAIL_NOT_CONFIRMED), db)"
    if "u \<in> set (users db)" "User_email u = form_username body"
      "User_confirmed u \<noteq> Some True" for u pw
    using known [of u "body\<lparr>form_password := pw\<rparr>"] that by simp
  show ?thesis
    using iff unknown unconf known by simp
qed

theorem login_401_exactly_witness:
  "fst (login (example_service CHR ''2'') \<lparr>form_username = ''nobody@x.com'', form_password = ''pw''\<rparr> example_db)
     = Inl (HTTPException 401 INVALID_EMAIL) \<and>
   fst (login (example_service CHR ''2'') \<lparr>form_username = ''a@x.com'', form_password = ''wrong''\<rparr> example_db)
     = Inl (HTTPException 401 INVALID_PASSWORD) \<and>
   fst (login (example_service CHR ''2'') \<lparr>form_username = ''a@x.com'', form_password = ''pw''\<rparr> example_db)
     = Inr \<lparr>access_token = ''a2a@x.com'', refresh_token_value = ''r2a@x.com'', token_type = ''bearer''\<rparr> \<and>
   fst (login (example_service CHR ''2'') \<lparr>form_username = ''a@x.com'', form_password = ''pw''\<rparr>
          (example_db\<lparr>users := [example_user\<lparr>User_confirmed := Some False\<rparr>]\<rparr>))
     = Inl (HTTPException 401 EMAIL_NOT_CONFIRMED)"
  using login_401_exactly [of example_db "example_service CHR ''2''"
          "\<lparr>form_username = ''nobody@x.com'', form_password = ''pw''\<rparr>"]
        login_401_exactly [of example_db "example_service CHR ''2''"
          "\<lparr>form_username = ''a@x.com'', form_password = ''wrong''\<rparr>"]
        login_401_exactly [of example_db "example_service CHR ''2''"
          "\<lparr>form_username = ''a@x.com'', form_password = ''pw''\<rparr>"]
        login_401_exactly [of "example_db\<lparr>users := [example_user\<lparr>User_confirmed := Some False\<rparr>]\<rparr>"
          "example_service CHR ''2''"
          "\<lparr>form_username = ''a@x.com'', form_password = ''pw''\<rparr>"]
  by (simp add: example_defs)

section \<open>Writes to the users table\<close>

lemma commit_User_fields [simp]:
  "contacts (commit_User pk f db) = contacts db"
  "password_reset_tokens (commit_User pk f db) = password_reset_tokens db"
  "func_now (commit_User pk f db) = func_now db"
  by (simp_all add: commit_User_def)

lemma get_user_by_email_func_now [simp]:
  "get_user_by_email email (db\<lparr>func_now := now\<rparr>) = get_user_by_email email db"
  by (simp add: get_user_by_email_def)

lemma filter_email_map:
  assumes "\<And>r. User_email (g r) = User_email r"
  shows "filter (\<lambda>u. User_email u = email) (map g rows) =
         map g (filter (\<lambda>u. User_email u = email) rows)"
  by (induction rows) (simp_all add: assms)

lemma get_user_by_email_commit_User:
  assumes keep: "\<And>r. User_email (f r) = User_email r"
    and found: "get_user_by_email email db = Inr (Some u)"
  shows "get_user_by_email email (commit_User pk f db) =
     Inr (Some (if User_id u = pk \<and> f u \<noteq> u
                then (f u)\<lparr>User_updated_at := func_now db\<rparr> else u))"
proof -
  let ?g = "\<lambda>r. if User_id r = pk \<and> f r \<noteq> r
                 then (f r)\<lparr>User_updated_at := func_now db\<rparr> else r"
  have g: "User_email (?g r) = User_email r" for r
    by (simp add: keep)
  have "filter (\<lambda>r. User_email r = email) (users (commit_User pk f db)) =
        map ?g (filter (\<lambda>r. User_email r = email) (users db))"
    unfolding commit_User_def using filter_email_map [of ?g, OF g] by simp
  also have "\<dots> = [?g u]"
    using get_user_by_email_SomeD [OF found] by simp
  finally show ?thesis
    by (simp add: get_user_by_email_def scalar_one_or_none_single)
qed


section \<open>Every operation keeps the constraints of the store\<close>

lemma fold_max_ge: "a \<le> fold max ids a \<and> (\<forall>x \<in> set ids. x \<le> fold max ids (a::nat))"
proof (induction ids arbitrary: a)
  case Nil
  then show ?case by simp
next
  case (Cons i ids)
  from Cons.IH [of "max i a"] show ?case by auto
qed

lemma fresh_id_notin: "fresh_id ids \<notin> set ids"
  using fold_max_ge [of 0 ids] by (fastforce simp: fresh_id_def)

lemma store_constraints_func_now [simp]:
  "store_constraints (db\<lparr>func_now := now\<rparr>) = store_constraints db"
  by (simp add: store_constraints_def)

lemma commit_User_constraints:
  assumes "\<And>r. User_id (f r) = User_id r" and "\<And>r. User_email (f r) = User_email r"
    and "store_constraints db"
  shows "store_constraints (commit_User pk f db)"
proof -
  let ?g = "\<lambda>r. if User_id r = pk \<and> f r \<noteq> r
                 then (f r)\<lparr>User_updated_at := func_now db\<rparr> else r"
  have "map User_id (map ?g (users db)) = map User_id (users db)"
    by (simp add: assms(1))
  moreover have "map User_email (map ?g (users db)) = map User_email (users db)"
    by (simp add: assms(2))
  ultimately show ?thesis
    using assms(3) by (simp add: store_constraints_def commit_User_def del: map_map)
qed

lemma update_token_constraints:
  "store_constraints db \<Longrightarrow> store_constraints (update_token user token db)"
  unfolding update_token_def by (rule commit_User_constraints) simp_all

lemma create_user_constraints:
  "store_constraints db \<Longrightarrow> store_constraints (snd (create_user Gravatar body db))"
  using fresh_id_notin [of "map User_id (users db)"]
  by (auto simp: create_user_def store_constraints_def Let_def)

lemma repositories_users_confirmed_email_constraints:
  "store_constraints db \<Longrightarrow> store_constraints (snd (repositories_users_confirmed_email email db))"
  by (auto simp: repositories_users_confirmed_email_def commit_User_constraints
           split: sum.splits option.splits)

lemma update_avatar_url_constraints:
  "store_constraints db \<Longrightarrow> store_constraints (snd (update_avatar_url email url db))"
  by (auto simp: update_avatar_url_def Let_def commit_User_constraints
           split: sum.splits option.splits)

lemma signup_constraints:
  "store_constraints db \<Longrightarrow> store_constraints (fst (snd (signup svc Gravatar body base_url db)))"
proof -
  assume db: "store_constraints db"
  let ?body = "body\<lparr>UserSchema_password := get_password_hash svc (UserSchema_password body)\<rparr>"
  from create_user_constraints [OF db, of Gravatar ?body] show ?thesis
    by (cases "create_user Gravatar ?body db")
       (auto simp: signup_def Let_def db split: sum.splits option.splits)
qed

lemma login_constraints:
  "store_constraints db \<Longrightarrow> store_constraints (snd (login svc body db))"
  by (auto simp: login_def Let_def update_token_constraints split: sum.splits option.splits)

lemma refresh_token_constraints:
  "store_constraints db \<Longrightarrow> store_constraints (snd (refresh_token svc token db))"
  by (auto simp: refresh_token_def Let_def update_token_constraints
           split: sum.splits option.splits)

lemma confirmed_email_constraints:
  "store_constraints db \<Longrightarrow> store_constraints (snd (confirmed_email svc token db))"
proof -
  assume db: "store_constraints db"
  have "store_constraints (snd (repositories_users_confirmed_email e db))" for e
    using db by (rule repositories_users_confirmed_email_constraints)
  then show ?thesis
    by (auto simp: confirmed_email_def db split: sum.splits option.splits prod.splits)
       (metis snd_conv)+
qed

lemma request_email_constraints:
  "store_constraints db \<Longrightarrow> store_constraints (fst (snd (request_email body base_url db)))"
  by (auto simp: request_email_def split: sum.splits option.splits)

lemma password_reset_request_constraints:
  "store_constraints db \<Longrightarrow>
     store_constraints (fst (snd (password_reset_request svc utcnow request db)))"
  using fresh_id_notin [of "map PasswordResetToken_id (password_reset_tokens db)"]
  by (auto simp: password_reset_request_def store_constraints_def Let_def
           split: sum.splits option.splits)

lemma after_reset_constraints:
  "store_constraints db \<Longrightarrow> store_constraints (after_reset svc request t u db)"
proof -
  assume "store_constraints db"
  then have "store_constraints (commit_User (User_id u)
        (\<lambda>r. r\<lparr>User_password := get_password_hash svc (PasswordReset_new_password request)\<rparr>) db)"
    by (intro commit_User_constraints) simp_all
  then show ?thesis
    by (simp add: after_reset_def store_constraints_def distinct_map_filter)
qed

lemma reset_password_constraints:
  "store_constraints db \<Longrightarrow> store_constraints (snd (reset_password svc utcnow request db))"
proof -
  assume db: "store_constraints db"
  have "snd (reset_password svc utcnow request db) = db \<or>
        (\<exists>t u. snd (reset_password svc utcnow request db) = after_reset svc request t u db)"
    by (auto simp: reset_password_def after_reset_def Let_def split: option.splits)
  with db show ?thesis
    by (auto simp: after_reset_constraints)
qed

lemma create_contact_constraints:
  "store_constraints db \<Longrightarrow> store_constraints (snd (create_contact body db user))"
  using fresh_id_notin [of "map Contact_id (contacts db)"]
  by (auto simp: create_contact_def store_constraints_def Let_def)

lemma remove_contact_constraints:
  "store_constraints db \<Longrightarrow> store_constraints (snd (remove_contact contact_id db user))"
  by (auto simp: remove_contact_def store_constraints_def distinct_map_filter
           split: sum.splits option.splits)

lemma distinct_map_changed_row_aux:
  assumes "distinct (map key rows)" and "distinct (map ident rows)"
    and "\<forall>r \<in> set rows. ident r \<noteq> i \<longrightarrow> key r \<noteq> k"
    and hit: "\<And>r. ident r = i \<Longrightarrow> key (h r) = k"
    and miss: "\<And>r. ident r \<noteq> i \<Longrightarrow> h r = r"
  shows "distinct (map key (map h rows))"
  using assms(1-3)
proof (induction rows)
  case Nil
  then show ?case by simp
next
  case (Cons a rows)
  have IH: "distinct (map key (map h rows))"
    using Cons by simp
  have "key (h r) \<noteq> key (h a)" if r: "r \<in> set rows" for r
  proof -
    from Cons.prems(2) r have ne: "ident r \<noteq> ident a"
      by (metis distinct.simps(2) image_eqI list.simps(9) set_map)
    from Cons.prems(1) r have kne: "key r \<noteq> key a"
      by (metis distinct.simps(2) image_eqI list.simps(9) set_map)
    from Cons.prems(3) r have rk: "ident r \<noteq> i \<longrightarrow> key r \<noteq> k"
      and ak: "ident a \<noteq> i \<longrightarrow> key a \<noteq> k" by auto
    show ?thesis
    proof (cases "ident a = i")
      case True
      with ne have "ident r \<noteq> i" by simp
      with rk miss [of r] hit [OF True] show ?thesis by simp
    next
      case False
      show ?thesis
      proof (cases "ident r = i")
        case True
        with False ak miss [of a] hit [of r] show ?thesis by simp
      next
        case F2: False
        with False kne miss [of a] miss [of r] show ?thesis by simp
      qed
    qed
  qed
  then have "key (h a) \<notin> set (map key (map h rows))"
    by (simp add: image_iff) metis
  with IH have "distinct (key (h a) # map key (map h rows))"
    by (simp only: distinct.simps) simp
  then show ?case by (simp only: list.map)
qed

lemma distinct_map_changed_row:
  assumes "distinct (map key rows)" and "distinct (map ident rows)"
    and "\<forall>r \<in> set rows. ident r \<noteq> i \<longrightarrow> key r \<noteq> k"
    and "\<And>r. ident r = i \<Longrightarrow> key (g r) = k"
  shows "distinct (map key (map (\<lambda>r. if ident r = i then g r else r) rows))"
  by (rule distinct_map_changed_row_aux [OF assms(1-3)]) (simp_all add: assms(4))

lemma committed_Contact_keys [simp]:
  "Contact_id (committed_Contact now (assign_body body) r) = Contact_id r"
  "Contact_email (committed_Contact now (assign_body body) r) = ContactSchema_email body"
  "Contact_phone_number (committed_Contact now (assign_body body) r) =
     ContactSchema_phone_number body"
proof -
  show "Contact_id (committed_Contact now (assign_body body) r) = Contact_id r"
    by (simp add: committed_Contact_def assign_body_def)
  have e: "Contact_email (assign_body body r) = ContactSchema_email body"
    and p: "Contact_phone_number (assign_body body r) = ContactSchema_phone_number body"
    by (simp_all add: assign_body_def)
  show "Contact_email (committed_Contact now (assign_body body) r) = ContactSchema_email body"
    using e by (cases "assign_body body r = r") (simp_all add: committed_Contact_def)
  show "Contact_phone_number (committed_Contact now (assign_body body) r) =
          ContactSchema_phone_number body"
    using p by (cases "assign_body body r = r") (simp_all add: committed_Contact_def)
qed

lemma update_contact_constraints:
  assumes db: "store_constraints db"
  shows "store_constraints (snd (update_contact contact_id body db user))"
proof -
  let ?sel = "scalar_one_or_none
             (filter (\<lambda>c. Contact_id c = contact_id \<and> Contact_user_id c = Some (User_id user))
                     (contacts db))"
  show ?thesis
  proof (cases ?sel)
    case (Inl e)
    with db show ?thesis by (simp add: update_contact_def)
  next
    case (Inr found)
    show ?thesis
    proof (cases found)
      case None
      with Inr db show ?thesis by (simp add: update_contact_def)
    next
      case (Some contact)
      let ?g = "committed_Contact (func_now db) (assign_body body)"
      let ?rows = "map (\<lambda>r. if Contact_id r = Contact_id contact then ?g r else r) (contacts db)"
      show ?thesis
      proof (cases "\<exists>r \<in> set (contacts db).
               Contact_id r \<noteq> Contact_id contact \<and>
               (Contact_email r = ContactSchema_email body \<or>
                Contact_phone_number r = ContactSchema_phone_number body)")
        case True
        with Inr Some db show ?thesis by (simp add: update_contact_def)
      next
        case False
        from db have ids: "distinct (map Contact_id (contacts db))"
          and em: "distinct (map Contact_email (contacts db))"
          and ph: "distinct (map Contact_phone_number (contacts db))"
          by (simp_all add: store_constraints_def)
        have "map Contact_id ?rows = map Contact_id (contacts db)"
          by simp
        then have i': "distinct (map Contact_id ?rows)"
          using ids by (simp del: map_map)
        have e': "distinct (map Contact_email ?rows)"
          using False by (intro distinct_map_changed_row [OF em ids]) auto
        have p': "distinct (map Contact_phone_number ?rows)"
          using False by (intro distinct_map_changed_row [OF ph ids]) auto
        have "snd (update_contact contact_id body db user) = db\<lparr>contacts := ?rows\<rparr>"
          using Inr Some False by (auto simp: update_contact_def)
        with db i' e' p' show ?thesis
          by (simp add: store_constraints_def)
      qed
    qed
  qed
qed

lemma store_constraints_empty: "store_constraints empty_db"
  by (simp add: store_constraints_def empty_db_def)

section \<open>Invariants along a sequence of requests\<close>

lemma serve_constraints:
  assumes "store_constraints db"
  shows "store_constraints (serve r db)"
proof -
  obtain now req where r: "r = (now, req)" by (cases r)
  have c: "store_constraints (db\<lparr>func_now := now\<rparr>)"
    using assms by simp
  show ?thesis
    unfolding r
    by (cases req)
       (simp_all add: c signup_constraints login_constraints refresh_token_constraints
          confirmed_email_constraints request_email_constraints
          password_reset_request_constraints reset_password_constraints
          update_avatar_url_constraints create_contact_constraints update_contact_constraints
          remove_contact_constraints del: store_constraints_func_now)
qed

lemma serve_all_constraints:
  "store_constraints db \<Longrightarrow> store_constraints (serve_all requests db)"
  unfolding serve_all_def
  by (induction requests arbitrary: db) (simp_all add: serve_constraints)

text \<open>No operation removes a user or changes an address.\<close>

lemma commit_User_emails:
  assumes "\<And>r. User_email (f r) = User_email r"
  shows "map User_email (users (commit_User pk f db)) = map User_email (users db)"
  by (simp add: commit_User_def assms)

lemma update_token_emails [simp]:
  "map User_email (users (update_token user token db)) = map User_email (users db)"
  unfolding update_token_def by (rule commit_User_emails) simp

lemma after_reset_emails [simp]:
  "map User_email (users (after_reset svc request t u db)) = map User_email (users db)"
proof -
  have "map User_email (users (commit_User (User_id u)
        (\<lambda>r. r\<lparr>User_password := get_password_hash svc (PasswordReset_new_password request)\<rparr>) db))
        = map User_email (users db)"
    by (rule commit_User_emails) simp
  then show ?thesis by (simp add: after_reset_def)
qed

lemma serve_emails:
  "set (map User_email (users db)) \<subseteq> set (map User_email (users (serve r db)))"
proof -
  obtain now req where r: "r = (now, req)" by (cases r)
  let ?db = "db\<lparr>func_now := now\<rparr>"
  have start: "users ?db = users db" by simp
  show ?thesis
  proof (cases req)
    case (Signup svc Gravatar body base_url)
    have "users (fst (snd (signup svc Gravatar body base_url ?db))) = users db \<or>
          (\<exists>u. users (fst (snd (signup svc Gravatar body base_url ?db))) = users db @ [u])"
      by (auto simp: signup_def create_user_def Let_def split: sum.splits option.splits)
    with r Signup show ?thesis by auto
  next
    case (Login svc body)
    have "map User_email (users (snd (login svc body ?db))) = map User_email (users db)"
      by (auto simp: login_def Let_def split: sum.splits option.splits)
    with r Login show ?thesis by simp
  next
    case (RefreshToken svc token)
    have "map User_email (users (snd (refresh_token svc token ?db))) = map User_email (users db)"
      by (auto simp: refresh_token_def Let_def split: sum.splits option.splits)
    with r RefreshToken show ?thesis by simp
  next
    case (ConfirmedEmail svc token)
    have "map User_email (users (snd (confirmed_email svc token ?db))) = map User_email (users db)"
      by (auto simp: confirmed_email_def repositories_users_confirmed_email_def
            commit_User_emails split: sum.splits option.splits)
    with r ConfirmedEmail show ?thesis by simp
  next
    case (RequestEmailAgain body base_url)
    have "fst (snd (request_email body base_url ?db)) = ?db"
      by (auto simp: request_email_def split: sum.splits option.splits)
    with r RequestEmailAgain show ?thesis by simp
  next
    case (PasswordResetRequested svc utcnow body)
    have "users (fst (snd (password_reset_request svc utcnow body ?db))) = users db"
      by (auto simp: password_reset_request_def Let_def split: sum.splits option.splits)
    with r PasswordResetRequested show ?thesis by simp
  next
    case (ResetPassword svc utcnow body)
    have "snd (reset_password svc utcnow body ?db) = ?db \<or>
        (\<exists>t u. snd (reset_password svc utcnow body ?db) = after_reset svc body t u ?db)"
      by (auto simp: reset_password_def after_reset_def Let_def split: option.splits)
    then have "map User_email (users (snd (reset_password svc utcnow body ?db))) =
               map User_email (users db)"
      by auto
    with r ResetPassword show ?thesis by simp
  next
    case (UpdateAvatarUrl email url)
    have "map User_email (users (snd (update_avatar_url email url ?db))) = map User_email (users db)"
      by (auto simp: update_avatar_url_def Let_def commit_User_emails
            split: sum.splits option.splits)
    with r UpdateAvatarUrl show ?thesis by simp
  next
    case (CreateContact body user)
    have "users (snd (create_contact body ?db user)) = users db"
      by (auto simp: create_contact_def Let_def)
    with r CreateContact show ?thesis by simp
  next
    case (UpdateContact contact_id body user)
    have "users (snd (update_contact contact_id body ?db user)) = users db"
      by (auto simp: update_contact_def split: sum.splits option.splits)
    with r UpdateContact show ?thesis by simp
  next
    case (RemoveContact contact_id user)
    have "users (snd (remove_contact contact_id ?db user)) = users db"
      by (auto simp: remove_contact_def split: sum.splits option.splits)
    with r RemoveContact show ?thesis by simp
  qed
qed

lemma serve_all_emails:
  "email \<in> User_email ` set (users db) \<Longrightarrow>
     email \<in> User_email ` set (users (serve_all requests db))"
  unfolding serve_all_def
proof (induction requests arbitrary: db)
  case Nil
  then show ?case by simp
next
  case (Cons r requests)
  from Cons.prems serve_emails [of db r]
  have "email \<in> User_email ` set (users (serve r db))" by auto
  then show ?case using Cons.IH by simp
qed

lemma token_not_stored_func_now [simp]:
  "token_not_stored email t (db\<lparr>func_now := now\<rparr>) = token_not_stored email t db"
  by (simp add: token_not_stored_def)

lemma token_not_stored_cong:
  "users db' = users db \<Longrightarrow> token_not_stored email t db' = token_not_stored email t db"
  by (simp add: token_not_stored_def)







section \<open>Refresh\<close>



lemma refresh_token_match:
  assumes "decode_refresh_token svc t = Inr email"
    and "get_user_by_email email db = Inr (Some u)"
    and "User_refresh_token u = Some t"
  shows "refresh_token svc t db =
           (Inr \<lparr>access_token = create_access_token svc email,
                 refresh_token_value = create_refresh_token svc email,
                 token_type = ''bearer''\<rparr>,
            update_token u (Some (create_refresh_token svc email)) db)"
  using assms by (simp add: refresh_token_def Let_def)








section \<open>Resending the confirmation\<close>

lemma request_email_unknown:
  "RequestEmail_email body \<notin> User_email ` set (users db) \<Longrightarrow>
     request_email body base_url db = (Inl AttributeError, db, [])"
  by (simp add: request_email_def get_user_by_email_unknown getattr_confirmed_def)

lemma request_email_known:
  assumes "distinct (map User_email (users db))" and "u \<in> set (users db)"
    and "User_email u = RequestEmail_email body"
  shows "request_email body base_url db =
     (if User_confirmed u = Some True then (Inr ''Your email is already confirmed'', db, [])
      else (Inr ''Check your email for confirmation.'', db,
            [send_email (User_email u) (User_username u) base_url]))"
  using get_user_by_email_known [OF assms(1,2)] assms(3)
  by (simp add: request_email_def getattr_confirmed_def)

text \<open>
  Claim C6. A confirmation-resend for an address that no user has does not return a
  message: reading \<open>confirmed\<close> on the missing user raises \<open>AttributeError\<close>, before
  the guard on the user is reached.
\<close>

theorem request_email_unknown_user_raises:
  "request_email \<lparr>RequestEmail_email = ''nobody@x.com''\<rparr> ''http://testserver/'' example_db =
     (Inl AttributeError, example_db, [])"
  by (rule request_email_unknown) (simp add: example_defs)

section \<open>Confirming an address\<close>

text \<open>
  Claim C9. For a user whose \<open>confirmed\<close> flag is true, a confirm-email call whose
  token decodes to the user's address returns the already-confirmed message, which is
  not the message of a first confirmation, and leaves the store as it was.
\<close>

theorem confirmed_email_already_confirmed:
  assumes "get_email_from_token svc token = Inr (User_email u)"
    and "distinct (map User_email (users db))" and "u \<in> set (users db)"
    and "User_confirmed u = Some True"
  shows "confirmed_email svc token db = (Inr ''Your email is already confirmed'', db) \<and>
         ''Your email is already confirmed'' \<noteq> ''Email confirmed''"
  using assms(1,4) get_user_by_email_known [OF assms(2,3)]
  by (simp add: confirmed_email_def)

theorem confirmed_email_already_confirmed_witness:
  "confirmed_email (example_service CHR ''2'') ''e1a@x.com'' example_db =
     (Inr ''Your email is already confirmed'', example_db)"
proof -
  have "get_email_from_token (example_service CHR ''2'') ''e1a@x.com'' =
          Inr (User_email example_user)"
    by (simp add: example_defs)
  moreover have "distinct (map User_email (users example_db))"
    by (simp add: example_defs)
  moreover have "example_user \<in> set (users example_db)"
    by (simp add: example_defs)
  moreover have "User_confirmed example_user = Some True"
    by (simp add: example_defs)
  ultimately show ?thesis
    using confirmed_email_already_confirmed by blast
qed

section \<open>Signup\<close>

lemma signup_known:
  assumes "distinct (map User_email (users db))"
    and "UserSchema_email body \<in> User_email ` set (users db)"
  shows "signup svc Gravatar body base_url db = (Inl (HTTPException 409 ACCOUNT_EXIST), db, [])"
proof -
  from assms(2) obtain u where "u \<in> set (users db)" "User_email u = UserSchema_email body"
    by auto
  with get_user_by_email_known [OF assms(1), of u] show ?thesis
    by (simp add: signup_def)
qed

lemma signup_unknown:
  assumes "UserSchema_email body \<notin> User_email ` set (users db)"
  shows "signup svc Gravatar body base_url db =
     (let new_user = \<lparr>User_id = fresh_id (map User_id (users db)),
                      User_username = UserSchema_username body,
                      User_email = UserSchema_email body,
                      User_password = get_password_hash svc (UserSchema_password body),
                      User_avatar = Gravatar (UserSchema_email body),
                      User_refresh_token = None,
                      User_created_at = func_now db,
                      User_updated_at = func_now db,
                      User_role = Some Role_user,
                      User_confirmed = Some False\<rparr>
      in (Inr new_user, db\<lparr>users := users db @ [new_user]\<rparr>,
          [send_email (UserSchema_email body) (UserSchema_username body) base_url]))"
  using assms get_user_by_email_unknown [OF assms]
  by (simp add: signup_def create_user_def Let_def)

lemma signup_after_first:
  assumes "UserSchema_email body \<notin> User_email ` set (users db)"
    and "users db' = users db @ [new_user]" and "User_email new_user = UserSchema_email body"
    and "UserSchema_email body2 = UserSchema_email body"
  shows "signup svc2 Gravatar2 body2 url2 db' = (Inl (HTTPException 409 ACCOUNT_EXIST), db', [])"
proof -
  have "filter (\<lambda>u. User_email u = UserSchema_email body) (users db) = []"
    using assms(1) by (rule filter_absent_key)
  then have "get_user_by_email (UserSchema_email body2) db' = Inr (Some new_user)"
    using assms(2,3,4) by (simp add: get_user_by_email_def scalar_one_or_none_single)
  then show ?thesis by (simp add: signup_def)
qed

lemma signup_after_any_requests:
  assumes "store_constraints db" and "UserSchema_email body \<in> User_email ` set (users db)"
  shows "signup svc Gravatar body base_url (serve_all requests db) =
           (Inl (HTTPException 409 ACCOUNT_EXIST), serve_all requests db, [])"
proof -
  have "store_constraints (serve_all requests db)"
    using assms(1) by (rule serve_all_constraints)
  then have "distinct (map User_email (users (serve_all requests db)))"
    by (simp add: store_constraints_def)
  moreover have "UserSchema_email body \<in> User_email ` set (users (serve_all requests db))"
    using assms(2) by (rule serve_all_emails)
  ultimately show ?thesis by (rule signup_known)
qed

text \<open>
  Claim C7. On a store where no user has the address of the payload (a fresh store
  among them), signup succeeds: it appends one user with the payload's name and
  address, \<open>confirmed\<close> false and as password what the hasher returned for the
  payload's password, and queues the confirmation mail. Every later signup with the
  same address fails with 409 and leaves the store as it was: on the resulting store, on
  any store that keeps addresses unique and holds the address, and so (on a store that
  keeps its constraints) after every sequence of requests.
\<close>

theorem signup_first_then_conflict:
  assumes "UserSchema_email body \<notin> User_email ` set (users db)"
  shows "\<exists>new_user db'.
     signup svc Gravatar body base_url db =
       (Inr new_user, db',
        [send_email (UserSchema_email body) (UserSchema_username body) base_url]) \<and>
     users db' = users db @ [new_user] \<and>
     contacts db' = contacts db \<and>
     password_reset_tokens db' = password_reset_tokens db \<and>
     User_email new_user = UserSchema_email body \<and>
     User_username new_user = UserSchema_username body \<and>
     User_confirmed new_user = Some False \<and>
     User_password new_user = get_password_hash svc (UserSchema_password body) \<and>
     (\<forall>svc2 Gravatar2 body2 url2 now.
        UserSchema_email body2 = UserSchema_email body \<longrightarrow>
        signup svc2 Gravatar2 body2 url2 (db'\<lparr>func_now := now\<rparr>) =
          (Inl (HTTPException 409 ACCOUNT_EXIST), db'\<lparr>func_now := now\<rparr>, [])) \<and>
     (\<forall>svc2 Gravatar2 body2 url2 db2.
        UserSchema_email body2 = UserSchema_email body \<and>
        distinct (map User_email (users db2)) \<and>
        UserSchema_email body \<in> User_email ` set (users db2) \<longrightarrow>
        signup svc2 Gravatar2 body2 url2 db2 = (Inl (HTTPException 409 ACCOUNT_EXIST), db2, [])) \<and>
     (store_constraints db \<longrightarrow>
        (\<forall>svc2 Gravatar2 body2 url2 requests.
           UserSchema_email body2 = UserSchema_email body \<longrightarrow>
           signup svc2 Gravatar2 body2 url2 (serve_all requests db') =
             (Inl (HTTPException 409 ACCOUNT_EXIST), serve_all requests db', [])))"
proof -
  define new_user where "new_user =
     \<lparr>User_id = fresh_id (map User_id (users db)),
      User_username = UserSchema_username body,
      User_email = UserSchema_email body,
      User_password = get_password_hash svc (UserSchema_password body),
      User_avatar = Gravatar (UserSchema_email body),
      User_refresh_token = None,
      User_created_at = func_now db,
      User_updated_at = func_now db,
      User_role = Some Role_user,
      User_confirmed = Some False\<rparr>"
  define db' where "db' = db\<lparr>users := users db @ [new_user]\<rparr>"
  have first: "signup svc Gravatar body base_url db =
       (Inr new_user, db',
        [send_email (UserSchema_email body) (UserSchema_username body) base_url])"
    using signup_unknown [OF assms] by (simp add: new_user_def db'_def Let_def)
  have fields: "users db' = users db @ [new_user]" "contacts db' = contacts db"
    "password_reset_tokens db' = password_reset_tokens db"
    "User_email new_user = UserSchema_email body"
    "User_username new_user = UserSchema_username body"
    "User_confirmed new_user = Some False"
    "User_password new_user = get_password_hash svc (UserSchema_password body)"
    by (simp_all add: new_user_def db'_def)
  have second: "signup svc2 Gravatar2 body2 url2 (db'\<lparr>func_now := now\<rparr>) =
          (Inl (HTTPException 409 ACCOUNT_EXIST), db'\<lparr>func_now := now\<rparr>, [])"
    if "UserSchema_email body2 = UserSchema_email body" for svc2 Gravatar2 body2 url2 now
    by (rule signup_after_first [OF assms _ fields(4) that]) (simp add: fields(1))
  have later: "signup svc2 Gravatar2 body2 url2 db2 = (Inl (HTTPException 409 ACCOUNT_EXIST), db2, [])"
    if "UserSchema_email body2 = UserSchema_email body"
      "distinct (map User_email (users db2))"
      "UserSchema_email body \<in> User_email ` set (users db2)" for svc2 Gravatar2 body2 url2 db2
    using that by (simp add: signup_known)
  have always: "signup svc2 Gravatar2 body2 url2 (serve_all requests db') =
             (Inl (HTTPException 409 ACCOUNT_EXIST), serve_all requests db', [])"
    if "store_constraints db" "UserSchema_email body2 = UserSchema_email body"
    for svc2 Gravatar2 body2 url2 requests
  proof -
    have "store_constraints db'"
      using signup_constraints [OF that(1), of svc Gravatar body base_url] first by simp
    moreover have "UserSchema_email body2 \<in> User_email ` set (users db')"
      using that(2) fields(1,4) by force
    ultimately show ?thesis by (rule signup_after_any_requests)
  qed
  from first fields second later always show ?thesis by blast
qed

theorem signup_first_then_conflict_witness:
  "signup (example_service CHR ''1'') (\<lambda>e. None)
     \<lparr>UserSchema_username = ''agent007'', UserSchema_email = ''a@x.com'',
      UserSchema_password = ''12345678''\<rparr> ''http://testserver/'' empty_db
   = (Inr \<lparr>User_id = 1, User_username = ''agent007'', User_email = ''a@x.com'',
           User_password = ''h112345678'', User_avatar = None, User_refresh_token = None,
           User_created_at = 0, User_updated_at = 0, User_role = Some Role_user,
           User_confirmed = Some False\<rparr>,
      empty_db\<lparr>users :=
        [\<lparr>User_id = 1, User_username = ''agent007'', User_email = ''a@x.com'',
          User_password = ''h112345678'', User_avatar = None, User_refresh_token = None,
          User_created_at = 0, User_updated_at = 0, User_role = Some Role_user,
          User_confirmed = Some False\<rparr>]\<rparr>,
      [send_email ''a@x.com'' ''agent007'' ''http://testserver/'']) \<and>
   signup (example_service CHR ''2'') (\<lambda>e. None)
     \<lparr>UserSchema_username = ''agent007'', UserSchema_email = ''a@x.com'',
      UserSchema_password = ''pw2''\<rparr> ''http://testserver/'' example_db
   = (Inl (HTTPException 409 ACCOUNT_EXIST), example_db, []) \<and>
   (\<exists>db'. fst (snd (signup (example_service CHR ''1'') (\<lambda>e. None)
                       \<lparr>UserSchema_username = ''agent007'', UserSchema_email = ''a@x.com'',
                        UserSchema_password = ''12345678''\<rparr> ''http://testserver/'' empty_db)) = db' \<and>
          signup (example_service CHR ''2'') (\<lambda>e. None)
            \<lparr>UserSchema_username = ''agent007'', UserSchema_email = ''a@x.com'',
             UserSchema_password = ''pw2''\<rparr> ''http://testserver/''
            (serve_all [(3, ConfirmedEmail (example_service CHR ''2'') ''e1a@x.com'')] db')
          = (Inl (HTTPException 409 ACCOUNT_EXIST),
             serve_all [(3, ConfirmedEmail (example_service CHR ''2'') ''e1a@x.com'')] db', []))"
proof -
  let ?body = "\<lparr>UserSchema_username = ''agent007'', UserSchema_email = ''a@x.com'',
      UserSchema_password = ''12345678''\<rparr>"
  let ?body2 = "\<lparr>UserSchema_username = ''agent007'', UserSchema_email = ''a@x.com'',
      UserSchema_password = ''pw2''\<rparr>"
  let ?requests = "[(3::int, ConfirmedEmail (example_service CHR ''2'') ''e1a@x.com'')]"
  have fresh: "UserSchema_email ?body \<notin> User_email ` set (users empty_db)"
    by (simp add: example_defs)
  have constraints: "store_constraints empty_db"
    by (rule store_constraints_empty)
  from signup_first_then_conflict [OF fresh, of "example_service CHR ''1''" "\<lambda>e. None"
      "''http://testserver/''"] constraints
  obtain new_user db' where
    first: "signup (example_service CHR ''1'') (\<lambda>e. None) ?body ''http://testserver/'' empty_db =
       (Inr new_user, db',
        [send_email (UserSchema_email ?body) (UserSchema_username ?body) ''http://testserver/''])"
    and later: "\<forall>svc2 Gravatar2 body2 url2 db2.
        UserSchema_email body2 = UserSchema_email ?body \<and>
        distinct (map User_email (users db2)) \<and>
        UserSchema_email ?body \<in> User_email ` set (users db2) \<longrightarrow>
        signup svc2 Gravatar2 body2 url2 db2 = (Inl (HTTPException 409 ACCOUNT_EXIST), db2, [])"
    and always: "\<forall>svc2 Gravatar2 body2 url2 requests.
           UserSchema_email body2 = UserSchema_email ?body \<longrightarrow>
           signup svc2 Gravatar2 body2 url2 (serve_all requests db') =
             (Inl (HTTPException 409 ACCOUNT_EXIST), serve_all requests db', [])"
    by blast
  have computed: "signup (example_service CHR ''1'') (\<lambda>e. None) ?body ''http://testserver/'' empty_db =
     (Inr \<lparr>User_id = 1, User_username = ''agent007'', User_email = ''a@x.com'',
           User_password = ''h112345678'', User_avatar = None, User_refresh_token = None,
           User_created_at = 0, User_updated_at = 0, User_role = Some Role_user,
           User_confirmed = Some False\<rparr>,
      empty_db\<lparr>users :=
        [\<lparr>User_id = 1, User_username = ''agent007'', User_email = ''a@x.com'',
          User_password = ''h112345678'', User_avatar = None, User_refresh_token = None,
          User_created_at = 0, User_updated_at = 0, User_role = Some Role_user,
          User_confirmed = Some False\<rparr>]\<rparr>,
      [send_email ''a@x.com'' ''agent007'' ''http://testserver/''])"
    by (simp add: signup_def create_user_def get_user_by_email_def scalar_one_or_none_def
          fresh_id_def Let_def example_defs)
  have conflict: "signup (example_service CHR ''2'') (\<lambda>e. None) ?body2
                    ''http://testserver/'' example_db
                  = (Inl (HTTPException 409 ACCOUNT_EXIST), example_db, [])"
    using later by (simp add: example_defs)
  have "signup (example_service CHR ''2'') (\<lambda>e. None) ?body2 ''http://testserver/''
            (serve_all ?requests db')
          = (Inl (HTTPException 409 ACCOUNT_EXIST), serve_all ?requests db', [])"
    using always by simp
  moreover have "fst (snd (signup (example_service CHR ''1'') (\<lambda>e. None) ?body
                    ''http://testserver/'' empty_db)) = db'"
    using first by simp
  ultimately show ?thesis
    using computed conflict by simp
qed

section \<open>Completing a password reset\<close>

lemma scalar_filter_absent:
  "k \<notin> key ` set rows \<Longrightarrow> scalar (filter (\<lambda>x. key x = k) rows) = None"
  by (simp add: filter_absent_key scalar_def)

lemma scalar_filter_unique:
  "distinct (map key rows) \<Longrightarrow> r \<in> set rows \<Longrightarrow>
     scalar (filter (\<lambda>x. key x = key r) rows) = Some r"
  by (simp add: filter_unique_key scalar_def)

lemma reset_password_absent:
  "PasswordReset_token request \<notin> PasswordResetToken_token ` set (password_reset_tokens db) \<Longrightarrow>
     reset_password svc utcnow request db = (Inl (HTTPException 400 INVALID_OR_EXPIRED_TOKEN), db)"
  by (simp add: reset_password_def scalar_filter_absent)

lemma reset_password_found:
  assumes "distinct (map PasswordResetToken_token (password_reset_tokens db))"
    and "t \<in> set (password_reset_tokens db)"
    and "PasswordResetToken_token t = PasswordReset_token request"
  shows "reset_password svc utcnow request db =
     (if PasswordResetToken_expiration t < utcnow
      then (Inl (HTTPException 400 INVALID_OR_EXPIRED_TOKEN), db)
      else case scalar (filter (\<lambda>u. User_email u = PasswordResetToken_email t) (users db)) of
             None \<Rightarrow> (Inl (HTTPException 404 USER_NOT_FOUND), db)
           | Some u \<Rightarrow> (Inr ''Password has been reset successfully.'', after_reset svc request t u db))"
proof -
  have "scalar (filter (\<lambda>r. PasswordResetToken_token r = PasswordReset_token request)
                 (password_reset_tokens db)) = Some t"
    using scalar_filter_unique [OF assms(1,2)] assms(3) by simp
  then show ?thesis
    by (simp add: reset_password_def after_reset_def Let_def split: option.splits)
qed

lemma deleted_token_absent:
  assumes "distinct (map PasswordResetToken_token rows)" and "t \<in> set rows"
  shows "PasswordResetToken_token t \<notin> PasswordResetToken_token `
           set (filter (\<lambda>r. PasswordResetToken_id r \<noteq> PasswordResetToken_id t) rows)"
proof
  assume "PasswordResetToken_token t \<in> PasswordResetToken_token `
            set (filter (\<lambda>r. PasswordResetToken_id r \<noteq> PasswordResetToken_id t) rows)"
  then obtain r where r: "r \<in> set rows" "PasswordResetToken_id r \<noteq> PasswordResetToken_id t"
    "PasswordResetToken_token r = PasswordResetToken_token t"
    by auto
  from assms(1) have "inj_on PasswordResetToken_token (set rows)"
    by (simp add: distinct_map)
  with r(1,3) assms(2) have "r = t" by (metis inj_onD)
  with r(2) show False by simp
qed

text \<open>
  Claim C2, as the code has it. For every stored reset token \<open>t\<close> (token strings are
  unique in the store), a reset-password request presenting \<open>t\<close> at time \<open>utcnow\<close>
  fails with the invalid-or-expired detail exactly when the expiration of \<open>t\<close> is
  before \<open>utcnow\<close>. The check is exclusive: a token whose expiration equals the
  current time is still accepted.
\<close>

theorem reset_password_expiry_exclusive:
  assumes "distinct (map PasswordResetToken_token (password_reset_tokens db))"
    and "t \<in> set (password_reset_tokens db)"
    and "PasswordReset_token request = PasswordResetToken_token t"
  shows "(fst (reset_password svc utcnow request db) =
            Inl (HTTPException 400 INVALID_OR_EXPIRED_TOKEN)
          \<longleftrightarrow> PasswordResetToken_expiration t < utcnow) \<and>
         (PasswordResetToken_expiration t = utcnow \<longrightarrow>
            fst (reset_password svc utcnow request db) \<noteq>
              Inl (HTTPException 400 INVALID_OR_EXPIRED_TOKEN))"
  using reset_password_found [OF assms(1,2) assms(3) [symmetric], of svc utcnow]
  by (simp split: option.splits)

theorem reset_password_expiry_exclusive_witness:
  "fst (reset_password (example_service CHR ''2'') 101
          \<lparr>PasswordReset_token = ''t1'', PasswordReset_new_password = ''new''\<rparr> example_db) =
     Inl (HTTPException 400 INVALID_OR_EXPIRED_TOKEN) \<and>
   fst (reset_password (example_service CHR ''2'') 100
          \<lparr>PasswordReset_token = ''t1'', PasswordReset_new_password = ''new''\<rparr> example_db) \<noteq>
     Inl (HTTPException 400 INVALID_OR_EXPIRED_TOKEN)"
proof -
  let ?request = "\<lparr>PasswordReset_token = ''t1'', PasswordReset_new_password = ''new''\<rparr>"
  have d: "distinct (map PasswordResetToken_token (password_reset_tokens example_db))"
    and m: "example_token \<in> set (password_reset_tokens example_db)"
    and p: "PasswordReset_token ?request = PasswordResetToken_token example_token"
    by (simp_all add: example_defs)
  have e: "PasswordResetToken_expiration example_token = 100"
    by (simp add: example_defs)
  from reset_password_expiry_exclusive [OF d m p, of "example_service CHR ''2''" 101]
    reset_password_expiry_exclusive [OF d m p, of "example_service CHR ''2''" 100]
  show ?thesis by (simp add: e)
qed

theorem reset_password_at_expiration_counterexample:
  "example_token \<in> set (password_reset_tokens example_db) \<and>
   PasswordResetToken_expiration example_token = 100 \<and>
   reset_password (example_service CHR ''2'') 100
     \<lparr>PasswordReset_token = PasswordResetToken_token example_token,
      PasswordReset_new_password = ''new''\<rparr> example_db =
     (Inr ''Password has been reset successfully.'',
      example_db\<lparr>users := [example_user\<lparr>User_password := ''h2new'', User_updated_at := 5\<rparr>],
                 password_reset_tokens := []\<rparr>)"
  by (simp add: reset_password_def scalar_def commit_User_def Let_def example_defs)

text \<open>
  Claim C4. On a store that keeps token strings and user addresses unique, a
  reset-password completion fails with 400 and the invalid-or-expired detail when no row
  has the token or the row's expiration is before the current time; it fails with 404
  when no user has the row's address; a failure leaves the store as it was. Otherwise it
  succeeds: the user with the row's address has as password what the hasher returned
  for the new password, the row is deleted and the token string is gone from the table,
  so that any completion presenting the same token on the resulting store fails with
  the invalid-or-expired detail.
\<close>

theorem reset_password_single_use:
  assumes tokens: "distinct (map PasswordResetToken_token (password_reset_tokens db))"
    and emails: "distinct (map User_email (users db))"
  shows
    "(PasswordReset_token request \<notin> PasswordResetToken_token ` set (password_reset_tokens db) \<longrightarrow>
        reset_password svc utcnow request db =
          (Inl (HTTPException 400 INVALID_OR_EXPIRED_TOKEN), db)) \<and>
     (\<forall>t \<in> set (password_reset_tokens db).
        PasswordResetToken_token t = PasswordReset_token request \<longrightarrow>
        (PasswordResetToken_expiration t < utcnow \<longrightarrow>
           reset_password svc utcnow request db =
             (Inl (HTTPException 400 INVALID_OR_EXPIRED_TOKEN), db)) \<and>
        (\<not> PasswordResetToken_expiration t < utcnow \<and>
         PasswordResetToken_email t \<notin> User_email ` set (users db) \<longrightarrow>
           reset_password svc utcnow request db = (Inl (HTTPException 404 USER_NOT_FOUND), db)) \<and>
        (\<not> PasswordResetToken_expiration t < utcnow \<and>
         PasswordResetToken_email t \<in> User_email ` set (users db) \<longrightarrow>
           (\<exists>db' u'.
              reset_password svc utcnow request db =
                (Inr ''Password has been reset successfully.'', db') \<and>
              get_user_by_email (PasswordResetToken_email t) db' = Inr (Some u') \<and>
              User_password u' = get_password_hash svc (PasswordReset_new_password request) \<and>
              password_reset_tokens db' =
                filter (\<lambda>r. PasswordResetToken_id r \<noteq> PasswordResetToken_id t)
                       (password_reset_tokens db) \<and>
              t \<notin> set (password_reset_tokens db') \<and>
              PasswordReset_token request \<notin>
                PasswordResetToken_token ` set (password_reset_tokens db') \<and>
              (\<forall>svc2 utcnow2 request2 now.
                 PasswordReset_token request2 = PasswordReset_token request \<longrightarrow>
                 reset_password svc2 utcnow2 request2 (db'\<lparr>func_now := now\<rparr>) =
                   (Inl (HTTPException 400 INVALID_OR_EXPIRED_TOKEN), db'\<lparr>func_now := now\<rparr>)))))"
proof (intro conjI impI ballI)
  assume "PasswordReset_token request \<notin> PasswordResetToken_token ` set (password_reset_tokens db)"
  then show "reset_password svc utcnow request db =
          (Inl (HTTPException 400 INVALID_OR_EXPIRED_TOKEN), db)"
    by (rule reset_password_absent)
next
  fix t
  assume t: "t \<in> set (password_reset_tokens db)"
    "PasswordResetToken_token t = PasswordReset_token request"
  note found = reset_password_found [OF tokens t, of svc utcnow]
  {
    assume "PasswordResetToken_expiration t < utcnow"
    with found show "reset_password svc utcnow request db =
             (Inl (HTTPException 400 INVALID_OR_EXPIRED_TOKEN), db)"
      by simp
  next
    assume "\<not> PasswordResetToken_expiration t < utcnow \<and>
         PasswordResetToken_email t \<notin> User_email ` set (users db)"
    with found show "reset_password svc utcnow request db =
             (Inl (HTTPException 404 USER_NOT_FOUND), db)"
      by (simp add: scalar_filter_absent)
  next
    assume valid: "\<not> PasswordResetToken_expiration t < utcnow \<and>
         PasswordResetToken_email t \<in> User_email ` set (users db)"
    then obtain u where u: "u \<in> set (users db)" "User_email u = PasswordResetToken_email t"
      by auto
    let ?f = "\<lambda>r. r\<lparr>User_password := get_password_hash svc (PasswordReset_new_password request)\<rparr>"
    let ?db' = "after_reset svc request t u db"
    have "scalar (filter (\<lambda>r. User_email r = PasswordResetToken_email t) (users db)) = Some u"
      using scalar_filter_unique [OF emails u(1)] u(2) by simp
    with found valid have result: "reset_password svc utcnow request db =
        (Inr ''Password has been reset successfully.'', ?db')"
      by simp
    have "get_user_by_email (PasswordResetToken_email t) db = Inr (Some u)"
      using get_user_by_email_known [OF emails u(1)] u(2) by simp
    then have "get_user_by_email (PasswordResetToken_email t) (commit_User (User_id u) ?f db) =
       Inr (Some (if User_id u = User_id u \<and> ?f u \<noteq> u
                  then (?f u)\<lparr>User_updated_at := func_now db\<rparr> else u))"
      by (intro get_user_by_email_commit_User) simp_all
    then have lookup: "get_user_by_email (PasswordResetToken_email t) ?db' =
       Inr (Some (if ?f u \<noteq> u then (?f u)\<lparr>User_updated_at := func_now db\<rparr> else u))"
      by (simp add: after_reset_def get_user_by_email_def)
    have pw: "User_password (if ?f u \<noteq> u then (?f u)\<lparr>User_updated_at := func_now db\<rparr> else u) =
                get_password_hash svc (PasswordReset_new_password request)"
      by (cases "?f u = u") (simp_all, metis User.select_convs(4) User.surjective User.update_convs(4))
    have rows: "password_reset_tokens ?db' =
        filter (\<lambda>r. PasswordResetToken_id r \<noteq> PasswordResetToken_id t) (password_reset_tokens db)"
      by (simp add: after_reset_def)
    have gone: "t \<notin> set (password_reset_tokens ?db')"
      by (simp add: rows)
    have absent: "PasswordReset_token request \<notin>
        PasswordResetToken_token ` set (password_reset_tokens ?db')"
      using deleted_token_absent [OF tokens t(1)] t(2) by (simp add: rows)
    have again: "reset_password svc2 utcnow2 request2 (?db'\<lparr>func_now := now\<rparr>) =
          (Inl (HTTPException 400 INVALID_OR_EXPIRED_TOKEN), ?db'\<lparr>func_now := now\<rparr>)"
      if "PasswordReset_token request2 = PasswordReset_token request"
      for svc2 utcnow2 request2 now
      by (rule reset_password_absent) (use absent that in simp)
    from result lookup pw rows gone absent again
    show "\<exists>db' u'.
              reset_password svc utcnow request db =
                (Inr ''Password has been reset successfully.'', db') \<and>
              get_user_by_email (PasswordResetToken_email t) db' = Inr (Some u') \<and>
              User_password u' = get_password_hash svc (PasswordReset_new_password request) \<and>
              password_reset_tokens db' =
                filter (\<lambda>r. PasswordResetToken_id r \<noteq> PasswordResetToken_id t)
                       (password_reset_tokens db) \<and>
              t \<notin> set (password_reset_tokens db') \<and>
              PasswordReset_token request \<notin>
                PasswordResetToken_token ` set (password_reset_tokens db') \<and>
              (\<forall>svc2 utcnow2 request2 now.
                 PasswordReset_token request2 = PasswordReset_token request \<longrightarrow>
                 reset_password svc2 utcnow2 request2 (db'\<lparr>func_now := now\<rparr>) =
                   (Inl (HTTPException 400 INVALID_OR_EXPIRED_TOKEN), db'\<lparr>func_now := now\<rparr>))"
      by blast
  }
qed

theorem reset_password_single_use_witness:
  "reset_password (example_service CHR ''2'') 50
     \<lparr>PasswordReset_token = ''zz'', PasswordReset_new_password = ''new''\<rparr> example_db =
     (Inl (HTTPException 400 INVALID_OR_EXPIRED_TOKEN), example_db) \<and>
   reset_password (example_service CHR ''2'') 101
     \<lparr>PasswordReset_token = ''t1'', PasswordReset_new_password = ''new''\<rparr> example_db =
     (Inl (HTTPException 400 INVALID_OR_EXPIRED_TOKEN), example_db) \<and>
   reset_password (example_service CHR ''2'') 50
     \<lparr>PasswordReset_token = ''t1'', PasswordReset_new_password = ''new''\<rparr>
     (example_db\<lparr>users := []\<rparr>) =
     (Inl (HTTPException 404 USER_NOT_FOUND), example_db\<lparr>users := []\<rparr>) \<and>
   (\<exists>db'. reset_password (example_service CHR ''2'') 50
            \<lparr>PasswordReset_token = ''t1'', PasswordReset_new_password = ''new''\<rparr> example_db =
            (Inr ''Password has been reset successfully.'', db') \<and>
          reset_password (example_service CHR ''3'') 60
            \<lparr>PasswordReset_token = ''t1'', PasswordReset_new_password = ''newer''\<rparr>
            (db'\<lparr>func_now := 7\<rparr>) =
            (Inl (HTTPException 400 INVALID_OR_EXPIRED_TOKEN), db'\<lparr>func_now := 7\<rparr>))"
proof -
  let ?svc = "example_service CHR ''2''"
  let ?request = "\<lparr>PasswordReset_token = ''t1'', PasswordReset_new_password = ''new''\<rparr>"
  have tokens: "distinct (map PasswordResetToken_token (password_reset_tokens example_db))"
    and emails: "distinct (map User_email (users example_db))"
    and tokens0: "distinct (map PasswordResetToken_token
                     (password_reset_tokens (example_db\<lparr>users := []\<rparr>)))"
    and emails0: "distinct (map User_email (users (example_db\<lparr>users := []\<rparr>)))"
    by (simp_all add: example_defs)
  have absent: "reset_password ?svc 50
     \<lparr>PasswordReset_token = ''zz'', PasswordReset_new_password = ''new''\<rparr> example_db =
     (Inl (HTTPException 400 INVALID_OR_EXPIRED_TOKEN), example_db)"
    using reset_password_single_use [OF tokens emails, of
        "\<lparr>PasswordReset_token = ''zz'', PasswordReset_new_password = ''new''\<rparr>" ?svc 50]
    by (simp add: example_defs)
  have expired: "reset_password ?svc 101 ?request example_db =
     (Inl (HTTPException 400 INVALID_OR_EXPIRED_TOKEN), example_db)"
    using reset_password_single_use [OF tokens emails, of ?request ?svc 101]
    by (simp add: example_defs)
  have missing: "reset_password ?svc 50 ?request (example_db\<lparr>users := []\<rparr>) =
     (Inl (HTTPException 404 USER_NOT_FOUND), example_db\<lparr>users := []\<rparr>)"
    using reset_password_single_use [OF tokens0 emails0, of ?request ?svc 50]
    by (simp add: example_defs)
  have "\<exists>db' u'.
          reset_password ?svc 50 ?request example_db =
            (Inr ''Password has been reset successfully.'', db') \<and>
          get_user_by_email ''a@x.com'' db' = Inr (Some u') \<and>
          User_password u' = get_password_hash ?svc ''new'' \<and>
          password_reset_tokens db' =
            filter (\<lambda>r. PasswordResetToken_id r \<noteq> PasswordResetToken_id example_token)
                   (password_reset_tokens example_db) \<and>
          example_token \<notin> set (password_reset_tokens db') \<and>
          ''t1'' \<notin> PasswordResetToken_token ` set (password_reset_tokens db') \<and>
          (\<forall>svc2 utcnow2 request2 now.
             PasswordReset_token request2 = ''t1'' \<longrightarrow>
             reset_password svc2 utcnow2 request2 (db'\<lparr>func_now := now\<rparr>) =
               (Inl (HTTPException 400 INVALID_OR_EXPIRED_TOKEN), db'\<lparr>func_now := now\<rparr>))"
    using reset_password_single_use [OF tokens emails, of ?request ?svc 50]
    by (simp add: example_defs)
  then obtain db' where
    "reset_password ?svc 50 ?request example_db =
       (Inr ''Password has been reset successfully.'', db')"
    "\<forall>svc2 utcnow2 request2 now.
       PasswordReset_token request2 = ''t1'' \<longrightarrow>
       reset_password svc2 utcnow2 request2 (db'\<lparr>func_now := now\<rparr>) =
         (Inl (HTTPException 400 INVALID_OR_EXPIRED_TOKEN), db'\<lparr>func_now := now\<rparr>)"
    by blast
  then have "\<exists>db'. reset_password ?svc 50 ?request example_db =
            (Inr ''Password has been reset successfully.'', db') \<and>
          reset_password (example_service CHR ''3'') 60
            \<lparr>PasswordReset_token = ''t1'', PasswordReset_new_password = ''newer''\<rparr>
            (db'\<lparr>func_now := 7\<rparr>) =
            (Inl (HTTPException 400 INVALID_OR_EXPIRED_TOKEN), db'\<lparr>func_now := 7\<rparr>)"
    by simp
  with absent expired missing show ?thesis by simp
qed

section \<open>What a password reset leaves alone\<close>

lemma reset_password_InrD:
  assumes "reset_password svc utcnow request db = (Inr msg, db')"
  shows "\<exists>t target.
           db' = after_reset svc request t target db \<and>
           msg = ''Password has been reset successfully.''"
  using assms
  by (auto simp: reset_password_def after_reset_def Let_def split: option.splits if_splits)

text \<open>
  Claim C10, as the code has it. After a successful reset-password completion, every
  user of the store (the one whose password was reset among them) is found under the
  same address with every field as before, except \<open>password\<close> and \<open>updated_at\<close>,
  which the store sets to the time of the write. In particular the stored refresh token
  is kept: a refresh presenting it after the reset, if it decodes to the user's
  address, returns a token pair.
\<close>

theorem reset_password_frame:
  assumes reset: "reset_password svc utcnow request db = (Inr msg, db')"
    and emails: "distinct (map User_email (users db))"
    and u: "u \<in> set (users db)"
  shows "\<exists>u'. get_user_by_email (User_email u) db' = Inr (Some u') \<and>
           u' = u\<lparr>User_password := User_password u', User_updated_at := User_updated_at u'\<rparr> \<and>
           User_refresh_token u' = User_refresh_token u \<and>
           (\<forall>t svc2 now.
              User_refresh_token u = Some t \<and> decode_refresh_token svc2 t = Inr (User_email u) \<longrightarrow>
              fst (refresh_token svc2 t (db'\<lparr>func_now := now\<rparr>)) =
                Inr \<lparr>access_token = create_access_token svc2 (User_email u),
                     refresh_token_value = create_refresh_token svc2 (User_email u),
                     token_type = ''bearer''\<rparr>)"
proof -
  from reset_password_InrD [OF reset] obtain t target where
    db': "db' = after_reset svc request t target db"
    by blast
  let ?f = "\<lambda>r. r\<lparr>User_password := get_password_hash svc (PasswordReset_new_password request)\<rparr>"
  let ?u' = "if User_id u = User_id target \<and> ?f u \<noteq> u
             then (?f u)\<lparr>User_updated_at := func_now db\<rparr> else u"
  have "get_user_by_email (User_email u) (commit_User (User_id target) ?f db) = Inr (Some ?u')"
    by (intro get_user_by_email_commit_User get_user_by_email_known emails u) simp
  then have lookup: "get_user_by_email (User_email u) db' = Inr (Some ?u')"
    by (simp add: db' after_reset_def get_user_by_email_def)
  have frame: "?u' = u\<lparr>User_password := User_password ?u', User_updated_at := User_updated_at ?u'\<rparr>"
    by simp
  have kept: "User_refresh_token ?u' = User_refresh_token u"
    by simp
  have accepted: "fst (refresh_token svc2 t' (db'\<lparr>func_now := now\<rparr>)) =
                Inr \<lparr>access_token = create_access_token svc2 (User_email u),
                     refresh_token_value = create_refresh_token svc2 (User_email u),
                     token_type = ''bearer''\<rparr>"
    if "User_refresh_token u = Some t' \<and> decode_refresh_token svc2 t' = Inr (User_email u)"
    for t' svc2 now
  proof -
    have "get_user_by_email (User_email u) (db'\<lparr>func_now := now\<rparr>) = Inr (Some ?u')"
      using lookup by simp
    moreover have "User_refresh_token ?u' = Some t'"
      using that kept by simp
    ultimately show ?thesis
      using that by (simp add: refresh_token_match del: get_user_by_email_func_now)
  qed
  from lookup frame kept accepted show ?thesis by blast
qed

theorem reset_password_frame_witness:
  "\<exists>db'. reset_password (example_service CHR ''2'') 50
            \<lparr>PasswordReset_token = ''t1'', PasswordReset_new_password = ''new''\<rparr> example_db =
            (Inr ''Password has been reset successfully.'', db') \<and>
         fst (refresh_token (example_service CHR ''3'') ''r1a@x.com'' (db'\<lparr>func_now := 9\<rparr>)) =
           Inr \<lparr>access_token = ''a3a@x.com'', refresh_token_value = ''r3a@x.com'',
                token_type = ''bearer''\<rparr>"
proof -
  let ?db' = "example_db\<lparr>users := [example_user\<lparr>User_password := ''h2new'', User_updated_at := 5\<rparr>],
                 password_reset_tokens := []\<rparr>"
  have reset: "reset_password (example_service CHR ''2'') 50
            \<lparr>PasswordReset_token = ''t1'', PasswordReset_new_password = ''new''\<rparr> example_db =
            (Inr ''Password has been reset successfully.'', ?db')"
    by (simp add: reset_password_def scalar_def commit_User_def Let_def example_defs)
  have emails: "distinct (map User_email (users example_db))"
    and u: "example_user \<in> set (users example_db)"
    by (simp_all add: example_defs)
  from reset_password_frame [OF reset emails u]
  have "\<forall>t svc2 now.
          User_refresh_token example_user = Some t \<and>
          decode_refresh_token svc2 t = Inr (User_email example_user) \<longrightarrow>
          fst (refresh_token svc2 t (?db'\<lparr>func_now := now\<rparr>)) =
            Inr \<lparr>access_token = create_access_token svc2 (User_email example_user),
                 refresh_token_value = create_refresh_token svc2 (User_email example_user),
                 token_type = ''bearer''\<rparr>"
    by blast
  then have "fst (refresh_token (example_service CHR ''3'') ''r1a@x.com'' (?db'\<lparr>func_now := 9\<rparr>)) =
           Inr \<lparr>access_token = ''a3a@x.com'', refresh_token_value = ''r3a@x.com'',
                token_type = ''bearer''\<rparr>"
    by (simp add: example_defs)
  with reset show ?thesis by blast
qed

theorem reset_password_updated_at_counterexample:
  "reset_password (example_service CHR ''2'') 50
     \<lparr>PasswordReset_token = ''t1'', PasswordReset_new_password = ''new''\<rparr> example_db =
     (Inr ''Password has been reset successfully.'',
      example_db\<lparr>users := [example_user\<lparr>User_password := ''h2new'', User_updated_at := 5\<rparr>],
                 password_reset_tokens := []\<rparr>) \<and>
   users example_db = [example_user] \<and>
   User_updated_at example_user = 0 \<and>
   example_user\<lparr>User_password := ''h2new'', User_updated_at := 5\<rparr> \<noteq>
     example_user\<lparr>User_password := ''h2new''\<rparr>"
  by (simp add: reset_password_def scalar_def commit_User_def Let_def example_defs)

section \<open>Birthdays\<close>

lemma get_contact_birthday_rest_of_month:
  assumes "date_plus_days today 7 = Inr seven_days_later"
    and "c \<in> set (contacts db)" and "Contact_user_id c = Some (User_id user)"
    and "month (Contact_birthday c) = month today" and "day today \<le> day (Contact_birthday c)"
  shows "\<exists>cs. get_contact_birthday today db user = Inr cs \<and> c \<in> set cs"
  using assms by (simp add: get_contact_birthday_def)

lemma add_days_numeral:
  "add_days (numeral k) d = add_days (pred_numeral k) (next_day d)"
  by (simp add: numeral_eq_Suc)

lemma example_today_plus_10:
  "date_plus_days example_today 10 = Inr \<lparr>year = 2024, month = 1, day = 11\<rparr>"
  by (simp add: example_today_def date_plus_days_def add_days_numeral next_day_def
        days_in_month_def is_leap_def)

lemma example_today_plus_7:
  "date_plus_days example_today 7 = Inr \<lparr>year = 2024, month = 1, day = 8\<rparr>"
  by (simp add: example_today_def date_plus_days_def add_days_numeral next_day_def
        days_in_month_def is_leap_def)

text \<open>
  Claim C5. Queried on 1 January 2024, a contact of the caller whose birthday has the
  month and day of that date plus ten days (11 January) is returned: the branch for the
  current month has no upper bound on the day.
\<close>

theorem get_contact_birthday_ten_days_ahead_returned:
  "date_plus_days example_today 10 = Inr \<lparr>year = 2024, month = 1, day = 11\<rparr> \<and>
   month (Contact_birthday example_contact) = 1 \<and>
   day (Contact_birthday example_contact) = 11 \<and>
   Contact_user_id example_contact = Some (User_id example_user) \<and>
   get_contact_birthday example_today example_contacts_db example_user =
     Inr [example_contact]"
proof -
  have "get_contact_birthday example_today example_contacts_db example_user =
     Inr [example_contact]"
    unfolding get_contact_birthday_def example_today_plus_7
    by (simp add: example_today_def example_contact_defs)
  then show ?thesis
    by (simp add: example_today_plus_10) (simp add: example_contact_defs)
qed

section \<open>Ownership of contacts\<close>

lemma filter_map_unaffected:
  assumes "\<And>x. x \<in> set xs \<Longrightarrow> P x \<Longrightarrow> g x = x"
    and "\<And>x. x \<in> set xs \<Longrightarrow> \<not> P x \<Longrightarrow> \<not> P (g x)"
  shows "filter P (map g xs) = filter P xs"
  using assms by (induction xs) auto

lemma filter_filter_unaffected:
  assumes "\<And>x. x \<in> set xs \<Longrightarrow> P x \<Longrightarrow> Q x"
  shows "filter P (filter Q xs) = filter P xs"
  using assms by (induction xs) auto

lemma owned_by_committed [simp]:
  "owned_by user (committed_Contact now (assign_body body) c) = owned_by user c"
  by (simp add: owned_by_def committed_Contact_def assign_body_def)

lemma selected_contact:
  assumes "scalar_one_or_none
             (filter (\<lambda>c. Contact_id c = contact_id \<and> Contact_user_id c = Some (User_id user))
                     (contacts db)) = Inr (Some contact)"
  shows "contact \<in> set (contacts db) \<and> Contact_id contact = contact_id \<and> owned_by user contact"
proof -
  from assms have
    "filter (\<lambda>c. Contact_id c = contact_id \<and> Contact_user_id c = Some (User_id user))
            (contacts db) = [contact]"
    by (auto simp: scalar_one_or_none_def split: list.splits)
  then have "contact \<in> set (filter (\<lambda>c. Contact_id c = contact_id \<and>
                 Contact_user_id c = Some (User_id user)) (contacts db))"
    by simp
  then show ?thesis by (simp add: owned_by_def)
qed

lemma same_id_same_row:
  assumes "distinct (map Contact_id rows)" and "r \<in> set rows" and "c \<in> set rows"
    and "Contact_id r = Contact_id c"
  shows "r = c"
  using assms by (metis distinct_map inj_onD)

lemma get_contacts_owned:
  "c \<in> set (get_contacts offset limit db user) \<Longrightarrow> owned_by user c \<and> c \<in> set (contacts db)"
proof -
  assume "c \<in> set (get_contacts offset limit db user)"
  then have "c \<in> set (filter (\<lambda>c. Contact_user_id c = Some (User_id user)) (contacts db))"
    unfolding get_contacts_def by (meson in_set_dropD in_set_takeD)
  then show ?thesis by (simp add: owned_by_def)
qed

lemma get_contact_id_owned:
  "get_contact_id contact_id db user = Inr (Some c) \<Longrightarrow> owned_by user c \<and> c \<in> set (contacts db)"
  unfolding get_contact_id_def by (drule selected_contact) simp

lemma get_contact_first_name_owned:
  "c \<in> set (get_contact_first_name func_lower str_lower name db user) \<Longrightarrow>
     owned_by user c \<and> c \<in> set (contacts db)"
  by (simp add: get_contact_first_name_def owned_by_def)

lemma get_contact_last_name_owned:
  "c \<in> set (get_contact_last_name func_lower str_lower name db user) \<Longrightarrow>
     owned_by user c \<and> c \<in> set (contacts db)"
  by (simp add: get_contact_last_name_def owned_by_def)

lemma get_contact_email_owned:
  assumes "get_contact_email func_lower str_lower email db user = Inr c"
  shows "owned_by user c \<and> c \<in> set (contacts db)"
proof -
  let ?rows = "filter (\<lambda>c. func_lower (Contact_email c) = str_lower email \<and>
                          Contact_user_id c = Some (User_id user)) (contacts db)"
  from assms have "scalar_one_or_none ?rows = Inr (Some c)"
    by (auto simp: get_contact_email_def split: sum.splits option.splits)
  then have "?rows = [c]"
    by (auto simp: scalar_one_or_none_def split: list.splits)
  then have "c \<in> set ?rows" by simp
  then show ?thesis by (simp add: owned_by_def)
qed

lemma get_contact_birthday_owned:
  "get_contact_birthday today db user = Inr cs \<Longrightarrow> c \<in> set cs \<Longrightarrow>
     owned_by user c \<and> c \<in> set (contacts db)"
  by (auto simp: get_contact_birthday_def owned_by_def split: sum.splits)

lemma create_contact_owned:
  assumes "create_contact body db user = (r, db')"
  shows "contacts_of_others user db' = contacts_of_others user db \<and>
         (\<forall>c. r = Inr c \<longrightarrow> owned_by user c \<and> contacts db' = contacts db @ [c])"
  using assms
  by (auto simp: create_contact_def contacts_of_others_def owned_by_def Let_def
           split: if_splits)

lemma update_contact_owned:
  assumes ids: "distinct (map Contact_id (contacts db))"
    and upd: "update_contact contact_id body db user = (r, db')"
  shows "contacts_of_others user db' = contacts_of_others user db \<and>
         (\<forall>c. r = Inr (Some c) \<longrightarrow> owned_by user c)"
proof -
  let ?sel = "scalar_one_or_none
             (filter (\<lambda>c. Contact_id c = contact_id \<and> Contact_user_id c = Some (User_id user))
                     (contacts db))"
  show ?thesis
  proof (cases ?sel)
    case (Inl e)
    with upd show ?thesis by (auto simp: update_contact_def)
  next
    case (Inr found)
    show ?thesis
    proof (cases found)
      case None
      with Inr upd show ?thesis by (auto simp: update_contact_def)
    next
      case (Some contact)
      with Inr have sel: "contact \<in> set (contacts db)" "owned_by user contact"
        using selected_contact by blast+
      let ?g = "\<lambda>r. if Contact_id r = Contact_id contact
                     then committed_Contact (func_now db) (assign_body body) r else r"
      have others: "filter (\<lambda>c. \<not> owned_by user c) (map ?g (contacts db)) =
                    filter (\<lambda>c. \<not> owned_by user c) (contacts db)"
      proof (rule filter_map_unaffected)
        fix x assume x: "x \<in> set (contacts db)" "\<not> owned_by user x"
        have "Contact_id x \<noteq> Contact_id contact"
          using same_id_same_row [OF ids x(1) sel(1)] x(2) sel(2) by auto
        then show "?g x = x" by simp
      next
        fix x assume "x \<in> set (contacts db)" "\<not> \<not> owned_by user x"
        then show "\<not> \<not> owned_by user (?g x)" by simp
      qed
      from Inr Some upd others sel(2) show ?thesis
        by (auto simp: update_contact_def contacts_of_others_def split: if_splits)
    qed
  qed
qed

lemma remove_contact_owned:
  assumes ids: "distinct (map Contact_id (contacts db))"
    and del: "remove_contact contact_id db user = (r, db')"
  shows "contacts_of_others user db' = contacts_of_others user db \<and>
         (\<forall>c. r = Inr (Some c) \<longrightarrow> owned_by user c)"
proof -
  let ?sel = "scalar_one_or_none
             (filter (\<lambda>c. Contact_id c = contact_id \<and> Contact_user_id c = Some (User_id user))
                     (contacts db))"
  show ?thesis
  proof (cases ?sel)
    case (Inl e)
    with del show ?thesis by (auto simp: remove_contact_def)
  next
    case (Inr found)
    show ?thesis
    proof (cases found)
      case None
      with Inr del show ?thesis by (auto simp: remove_contact_def)
    next
      case (Some contact)
      with Inr have sel: "contact \<in> set (contacts db)" "owned_by user contact"
        using selected_contact by blast+
      have others: "filter (\<lambda>c. \<not> owned_by user c)
                      (filter (\<lambda>r. Contact_id r \<noteq> Contact_id contact) (contacts db)) =
                    filter (\<lambda>c. \<not> owned_by user c) (contacts db)"
      proof (rule filter_filter_unaffected)
        fix x assume x: "x \<in> set (contacts db)" "\<not> owned_by user x"
        show "Contact_id x \<noteq> Contact_id contact"
          using same_id_same_row [OF ids x(1) sel(1)] x(2) sel(2) by auto
      qed
      from Inr Some del others sel(2) show ?thesis
        by (auto simp: remove_contact_def contacts_of_others_def)
    qed
  qed
qed

text \<open>
  Claim C8. On a store whose contact primary keys are unique, every contact operation
  run for a user is confined to that user's contacts: the paginated list, the lookup by
  id, the three searches and the birthday filter return only contacts whose owner is the
  user; create stores a contact owned by the user; and create, update and delete leave
  the list of contacts that the user does not own exactly as it was, and return only a
  contact of the user.
\<close>

theorem contact_operations_owner_scoped:
  assumes "distinct (map Contact_id (contacts db))"
  shows
    "(\<forall>c \<in> set (get_contacts offset limit db user). owned_by user c) \<and>
     (\<forall>c. get_contact_id contact_id db user = Inr (Some c) \<longrightarrow> owned_by user c) \<and>
     (\<forall>c \<in> set (get_contact_first_name func_lower str_lower name db user). owned_by user c) \<and>
     (\<forall>c \<in> set (get_contact_last_name func_lower str_lower name db user). owned_by user c) \<and>
     (\<forall>c. get_contact_email func_lower str_lower email db user = Inr c \<longrightarrow> owned_by user c) \<and>
     (\<forall>cs. get_contact_birthday today db user = Inr cs \<longrightarrow> (\<forall>c \<in> set cs. owned_by user c)) \<and>
     contacts_of_others user (snd (create_contact body db user)) = contacts_of_others user db \<and>
     (\<forall>c. fst (create_contact body db user) = Inr c \<longrightarrow>
          owned_by user c \<and> contacts (snd (create_contact body db user)) = contacts db @ [c]) \<and>
     contacts_of_others user (snd (update_contact contact_id body db user)) =
       contacts_of_others user db \<and>
     (\<forall>c. fst (update_contact contact_id body db user) = Inr (Some c) \<longrightarrow> owned_by user c) \<and>
     contacts_of_others user (snd (remove_contact contact_id db user)) =
       contacts_of_others user db \<and>
     (\<forall>c. fst (remove_contact contact_id db user) = Inr (Some c) \<longrightarrow> owned_by user c)"
proof -
  have list: "\<forall>c \<in> set (get_contacts offset limit db user). owned_by user c"
    using get_contacts_owned by blast
  have by_id: "\<forall>c. get_contact_id contact_id db user = Inr (Some c) \<longrightarrow> owned_by user c"
    using get_contact_id_owned by blast
  have first_name:
    "\<forall>c \<in> set (get_contact_first_name func_lower str_lower name db user). owned_by user c"
    using get_contact_first_name_owned by blast
  have last_name:
    "\<forall>c \<in> set (get_contact_last_name func_lower str_lower name db user). owned_by user c"
    using get_contact_last_name_owned by blast
  have by_email:
    "\<forall>c. get_contact_email func_lower str_lower email db user = Inr c \<longrightarrow> owned_by user c"
    using get_contact_email_owned by blast
  have birthday:
    "\<forall>cs. get_contact_birthday today db user = Inr cs \<longrightarrow> (\<forall>c \<in> set cs. owned_by user c)"
    using get_contact_birthday_owned by blast
  have created:
    "contacts_of_others user (snd (create_contact body db user)) = contacts_of_others user db \<and>
     (\<forall>c. fst (create_contact body db user) = Inr c \<longrightarrow>
          owned_by user c \<and> contacts (snd (create_contact body db user)) = contacts db @ [c])"
    using create_contact_owned [of body db user
        "fst (create_contact body db user)" "snd (create_contact body db user)"]
    by simp
  have updated:
    "contacts_of_others user (snd (update_contact contact_id body db user)) =
       contacts_of_others user db \<and>
     (\<forall>c. fst (update_contact contact_id body db user) = Inr (Some c) \<longrightarrow> owned_by user c)"
    using update_contact_owned [OF assms, of contact_id body user
        "fst (update_contact contact_id body db user)"
        "snd (update_contact contact_id body db user)"]
    by simp
  have removed:
    "contacts_of_others user (snd (remove_contact contact_id db user)) =
       contacts_of_others user db \<and>
     (\<forall>c. fst (remove_contact contact_id db user) = Inr (Some c) \<longrightarrow> owned_by user c)"
    using remove_contact_owned [OF assms, of contact_id user
        "fst (remove_contact contact_id db user)" "snd (remove_contact contact_id db user)"]
    by simp
  from list by_id first_name last_name by_email birthday created updated removed
  show ?thesis by blast
qed

theorem contact_operations_owner_scoped_witness:
  "foreign_contact \<notin> set (get_contacts 0 10 example_contacts_db example_user) \<and>
   get_contact_id 2 example_contacts_db example_user \<noteq> Inr (Some foreign_contact) \<and>
   foreign_contact \<notin> set (get_contact_first_name id id ''Bob'' example_contacts_db example_user) \<and>
   get_contact_email id id ''test2@gmail.com'' example_contacts_db example_user
     \<noteq> Inr foreign_contact \<and>
   get_contact_birthday example_today example_contacts_db example_user
     \<noteq> Inr [example_contact, foreign_contact] \<and>
   contacts_of_others example_user
     (snd (create_contact example_body example_contacts_db example_user)) = [foreign_contact] \<and>
   contacts_of_others example_user
     (snd (update_contact 2 example_body example_contacts_db example_user)) = [foreign_contact] \<and>
   contacts_of_others example_user
     (snd (remove_contact 2 example_contacts_db example_user)) = [foreign_contact]"
proof -
  have ids: "distinct (map Contact_id (contacts example_contacts_db))"
    by (simp add: example_contact_defs)
  have foreign: "\<not> owned_by example_user foreign_contact"
    by (simp add: owned_by_def example_contact_defs)
  have others: "contacts_of_others example_user example_contacts_db = [foreign_contact]"
    by (simp add: contacts_of_others_def owned_by_def example_contact_defs)
  from contact_operations_owner_scoped [OF ids, of 0 10 example_user 2 id id "''Bob''"
      "''test2@gmail.com''" example_today example_body]
  show ?thesis
    using foreign others by auto
qed

section \<open>The window of the birthday filter\<close>

lemma days_in_month_bounds: "28 \<le> days_in_month y m \<and> days_in_month y m \<le> 31"
  by (simp add: days_in_month_def)

lemma add_days_add: "add_days (a + b) d = add_days b (add_days a d)"
  by (induction a arbitrary: d) simp_all

lemma add_days_same_month:
  "day d + n \<le> days_in_month (year d) (month d) \<Longrightarrow> add_days n d = d\<lparr>day := day d + n\<rparr>"
proof (induction n arbitrary: d)
  case 0
  then show ?case by simp
next
  case (Suc n)
  then have "next_day d = d\<lparr>day := Suc (day d)\<rparr>"
    by (simp add: next_day_def)
  moreover have "add_days n (d\<lparr>day := Suc (day d)\<rparr>) =
                 (d\<lparr>day := Suc (day d)\<rparr>)\<lparr>day := day (d\<lparr>day := Suc (day d)\<rparr>) + n\<rparr>"
    using Suc.prems by (intro Suc.IH) simp
  ultimately show ?case by simp
qed

lemma month_next_month_start:
  "1 \<le> month d \<Longrightarrow> month (next_month_start d) \<noteq> month d"
  by (auto simp: next_month_start_def)

lemma add_days_next_month:
  assumes "day d \<le> days_in_month (year d) (month d)"
    and "days_in_month (year d) (month d) < day d + n" and "n \<le> 28"
  shows "add_days n d =
           (next_month_start d)\<lparr>day := day d + n - days_in_month (year d) (month d)\<rparr>"
proof -
  let ?dim = "days_in_month (year d) (month d)"
  let ?a = "?dim - day d"
  let ?b = "n - ?a - 1"
  let ?s = "next_month_start d"
  have n: "n = ?a + (1 + ?b)" using assms by simp
  have last: "add_days ?a d = d\<lparr>day := ?dim\<rparr>"
    using add_days_same_month [of d ?a] assms(1) by simp
  have roll: "next_day (d\<lparr>day := ?dim\<rparr>) = ?s"
    by (simp add: next_day_def next_month_start_def)
  have "1 + ?b \<le> days_in_month (year ?s) (month ?s)"
    using assms(3) days_in_month_bounds [of "year ?s" "month ?s"] by arith
  moreover have "day ?s = 1"
    by (simp add: next_month_start_def)
  ultimately have rest: "add_days ?b ?s = ?s\<lparr>day := 1 + ?b\<rparr>"
    using add_days_same_month [of ?s ?b] by simp
  have "add_days n d = add_days (1 + ?b) (add_days ?a d)"
    using add_days_add [of ?a "1 + ?b" d] n by simp
  also have "\<dots> = add_days ?b ?s"
    using last roll by simp
  also have "\<dots> = ?s\<lparr>day := 1 + ?b\<rparr>" by (rule rest)
  also have "1 + ?b = day d + n - ?dim" using assms by simp
  finally show ?thesis .
qed

lemma get_contact_birthday_mem:
  assumes "date_plus_days today 7 = Inr seven_days_later"
  shows "get_contact_birthday today db user = Inr cs \<longleftrightarrow>
         cs = filter
                (\<lambda>c. Contact_user_id c = Some (User_id user) \<and>
                     (month (Contact_birthday c) = month today \<and>
                        day today \<le> day (Contact_birthday c) \<or>
                      month (Contact_birthday c) = month seven_days_later \<and>
                        day (Contact_birthday c) \<le> day seven_days_later))
                (contacts db)"
  using assms by (auto simp: get_contact_birthday_def)

text \<open>
  A birthday on the month and day of today plus three days is returned, for every
  date of the calendar, also across the end of a year.
\<close>

lemma get_contact_birthday_three_days_ahead:
  assumes today: "valid_date today"
    and d3: "date_plus_days today 3 = Inr d3"
    and d7: "date_plus_days today 7 = Inr d7"
    and c: "c \<in> set (contacts db)" "Contact_user_id c = Some (User_id user)"
    and bday: "month (Contact_birthday c) = month d3" "day (Contact_birthday c) = day d3"
    and result: "get_contact_birthday today db user = Inr cs"
  shows "c \<in> set cs"
proof -
  let ?dim = "days_in_month (year today) (month today)"
  have v: "1 \<le> day today" "day today \<le> ?dim"
    using today by (simp_all add: valid_date_def)
  have a3: "d3 = add_days 3 today" and a7: "d7 = add_days 7 today"
    using d3 d7 by (auto simp: date_plus_days_def Let_def split: if_splits)
  have "month d3 = month today \<and> day today \<le> day d3 \<or>
        month d3 = month d7 \<and> day d3 \<le> day d7"
  proof (cases "day today + 3 \<le> ?dim")
    case True
    then have "d3 = today\<lparr>day := day today + 3\<rparr>"
      using a3 add_days_same_month [of today 3] by simp
    then show ?thesis
      by (metis date.select_convs(2) date.select_convs(3) date.surjective date.update_convs(3)
            le_add1)
  next
    case False
    then have "d3 = (next_month_start today)\<lparr>day := day today + 3 - ?dim\<rparr>"
      using a3 add_days_next_month [of today 3] v by simp
    moreover have "d7 = (next_month_start today)\<lparr>day := day today + 7 - ?dim\<rparr>"
      using False a7 add_days_next_month [of today 7] v by simp
    ultimately have "month d3 = month d7 \<and> day d3 \<le> day d7"
      by simp
    then show ?thesis by simp
  qed
  with bday c result show ?thesis
    by (simp add: get_contact_birthday_mem [OF d7])
qed

text \<open>
  A birthday on the month and day of today plus ten days is returned whenever that day
  is still in the month of today, and left out whenever it is in the next month.
\<close>

lemma get_contact_birthday_ten_days_ahead:
  assumes today: "valid_date today"
    and d10: "date_plus_days today 10 = Inr d10"
    and d7: "date_plus_days today 7 = Inr d7"
    and c: "c \<in> set (contacts db)" "Contact_user_id c = Some (User_id user)"
    and bday: "month (Contact_birthday c) = month d10" "day (Contact_birthday c) = day d10"
    and result: "get_contact_birthday today db user = Inr cs"
  shows "c \<in> set cs \<longleftrightarrow> day today + 10 \<le> days_in_month (year today) (month today)"
proof -
  let ?dim = "days_in_month (year today) (month today)"
  have v: "1 \<le> day today" "day today \<le> ?dim" "1 \<le> month today"
    using today by (simp_all add: valid_date_def)
  have a10: "d10 = add_days 10 today" and a7: "d7 = add_days 7 today"
    using d10 d7 by (auto simp: date_plus_days_def Let_def split: if_splits)
  have mem: "c \<in> set cs \<longleftrightarrow>
        (month d10 = month today \<and> day today \<le> day d10 \<or>
         month d10 = month d7 \<and> day d10 \<le> day d7)"
    using bday c result by (simp add: get_contact_birthday_mem [OF d7])
  show ?thesis
  proof (cases "day today + 10 \<le> ?dim")
    case True
    then have "d10 = today\<lparr>day := day today + 10\<rparr>"
      using a10 add_days_same_month [of today 10] by simp
    then have "month d10 = month today \<and> day today \<le> day d10"
      by (metis date.select_convs(2) date.select_convs(3) date.surjective date.update_convs(3)
            le_add1)
    with True mem show ?thesis by simp
  next
    case False
    then have e10: "d10 = (next_month_start today)\<lparr>day := day today + 10 - ?dim\<rparr>"
      using a10 add_days_next_month [of today 10] v by simp
    then have other: "month d10 \<noteq> month today"
      using month_next_month_start [OF v(3)] by simp
    have "\<not> (month d10 = month d7 \<and> day d10 \<le> day d7)"
    proof (cases "day today + 7 \<le> ?dim")
      case True
      then have "d7 = today\<lparr>day := day today + 7\<rparr>"
        using a7 add_days_same_month [of today 7] by simp
      then have "month d7 = month today"
        by (metis date.select_convs(2) date.surjective date.update_convs(3))
      with other show ?thesis by simp
    next
      case False
      then have "d7 = (next_month_start today)\<lparr>day := day today + 7 - ?dim\<rparr>"
        using a7 add_days_next_month [of today 7] v by simp
      with e10 have "day d7 < day d10"
        using False v by simp
      then show ?thesis by simp
    qed
    with other False mem show ?thesis by simp
  qed
qed

end
